theory Spec2Isabelle
  imports Complex_Main "HOL-Library.Sublist" "HOL-Library.Multiset"
begin

section \<open>Strings as the JavaScript code uses them\<close>

text \<open>
  Strings are lists of characters. The case mappings cover the ASCII letters; code
  points outside ASCII are left unchanged by the model.
\<close>

definition toUpperCase :: "char \<Rightarrow> char" where
  "toUpperCase c =
     (let n = (of_char c :: nat) in if 97 \<le> n \<and> n \<le> 122 then char_of (n - 32) else c)"

definition toLowerCase :: "char \<Rightarrow> char" where
  "toLowerCase c =
     (let n = (of_char c :: nat) in if 65 \<le> n \<and> n \<le> 90 then char_of (n + 32) else c)"

text \<open>White space removed by \<^verbatim>\<open>String.prototype.trim\<close>: space, tab, LF, VT, FF, CR.\<close>

definition isWhiteSpace :: "char \<Rightarrow> bool" where
  "isWhiteSpace c = (let n = (of_char c :: nat) in n = 32 \<or> (9 \<le> n \<and> n \<le> 13))"

definition trim :: "string \<Rightarrow> string" where
  "trim s = rev (dropWhile isWhiteSpace (rev (dropWhile isWhiteSpace s)))"

text \<open>\<^verbatim>\<open>s.split(' ')\<close>: the empty string gives one empty word.\<close>

fun split_space :: "string \<Rightarrow> string list" where
  "split_space [] = [[]]"
| "split_space (c # cs) =
     (if c = CHR '' '' then [] # split_space cs
      else (case split_space cs of [] \<Rightarrow> [[c]] | w # ws \<Rightarrow> (c # w) # ws))"

text \<open>\<^verbatim>\<open>words.join(' ')\<close>\<close>

fun join_space :: "string list \<Rightarrow> string" where
  "join_space [] = []"
| "join_space [w] = w"
| "join_space (w # v # ws) = w @ CHR '' '' # join_space (v # ws)"

text \<open>\<^verbatim>\<open>word.charAt(0).toUpperCase() + word.slice(1).toLowerCase()\<close>\<close>

fun capitalize :: "string \<Rightarrow> string" where
  "capitalize [] = []"
| "capitalize (c # cs) = toUpperCase c # map toLowerCase cs"

text \<open>The body of \<^verbatim>\<open>DeckSchema.pre('save')\<close> (DeckSchema.ts, lines 135-141).\<close>

definition titleCase :: "string \<Rightarrow> string" where
  "titleCase n = join_space (map capitalize (split_space n))"

section \<open>Regular expressions built from request text\<close>

text \<open>
  \<^verbatim>\<open>findByName\<close> and the storage-location filters pass request text to
  \<^verbatim>\<open>new RegExp(text, 'i')\<close> unescaped, so the text is read as a pattern. The model
  covers this fragment of the pattern language: literal characters, \<^verbatim>\<open>.\<close>, the
  assertions \<^verbatim>\<open>^\<close> and \<^verbatim>\<open>$\<close>, a backslash before a syntax character, and the
  quantifiers \<^verbatim>\<open>*\<close>, \<^verbatim>\<open>+\<close>, \<^verbatim>\<open>?\<close> (greedy or lazy). A pattern that uses groups,
  classes, braces, alternation or another escape is reported as \<open>Unsupported\<close>: the
  model says nothing about it. A pattern the constructor rejects is a \<open>SyntaxError\<close>.
\<close>

datatype atom = Lit char | AnyChar
datatype quant = One | Opt | Star | Plus
datatype item = Atom atom quant | Bol | Eol
datatype token = TAtom atom | TQuant quant | TBol | TEol | TUnsupported | TDangling
datatype 'a compiled = Compiled 'a | SyntaxError | Unsupported

definition backslash :: char where
  "backslash = CHR 0x5C"

definition syntaxChars :: "char list" where
  "syntaxChars = backslash # ''^$.*+?()[]{}|''"

definition plainChar :: "char \<Rightarrow> bool" where
  "plainChar c = (c \<notin> set syntaxChars)"

definition tokenOf :: "char \<Rightarrow> token" where
  "tokenOf c =
     (if c = CHR ''^'' then TBol
      else if c = CHR ''$'' then TEol
      else if c = CHR ''.'' then TAtom AnyChar
      else if c = CHR ''*'' then TQuant Star
      else if c = CHR ''+'' then TQuant Plus
      else if c = CHR ''?'' then TQuant Opt
      else if c \<in> set ''()[]{}|'' then TUnsupported
      else TAtom (Lit c))"

fun lex :: "string \<Rightarrow> token list" where
  "lex [] = []"
| "lex (c # cs) =
     (if c = backslash then
        (case cs of
           [] \<Rightarrow> [TDangling]
         | e # es \<Rightarrow>
             (if e \<in> set syntaxChars \<or> e = CHR ''/'' then TAtom (Lit e)
              else TUnsupported) # lex es)
      else tokenOf c # lex cs)"

definition andThen :: "item \<Rightarrow> item list compiled \<Rightarrow> item list compiled" where
  "andThen i r = (case r of Compiled is \<Rightarrow> Compiled (i # is) | e \<Rightarrow> e)"

text \<open>
  A quantifier follows an atom; a second \<^verbatim>\<open>?\<close> makes it lazy, which does not change
  whether the pattern matches. A quantifier with nothing to repeat is rejected.
\<close>

fun items :: "token list \<Rightarrow> item list compiled" where
  "items [] = Compiled []"
| "items (TAtom a # TQuant q # TQuant Opt # ts) = andThen (Atom a q) (items ts)"
| "items (TAtom a # TQuant q # ts) = andThen (Atom a q) (items ts)"
| "items (TAtom a # ts) = andThen (Atom a One) (items ts)"
| "items (TBol # ts) = andThen Bol (items ts)"
| "items (TEol # ts) = andThen Eol (items ts)"
| "items (TQuant q # ts) = SyntaxError"
| "items (TDangling # ts) = SyntaxError"
| "items (TUnsupported # ts) = Unsupported"

definition compile :: "string \<Rightarrow> item list compiled" where
  "compile p = items (lex p)"

text \<open>Flag \<^verbatim>\<open>i\<close>: characters are compared after case folding.\<close>

fun atomMatches :: "atom \<Rightarrow> char \<Rightarrow> bool" where
  "atomMatches (Lit a) c = (toUpperCase a = toUpperCase c)"
| "atomMatches AnyChar c = (c \<noteq> CHR 0x0A \<and> c \<noteq> CHR 0x0D)"

text \<open>
  \<open>matchHere is b s\<close>: the items match a prefix of \<open>s\<close>; \<open>b\<close> says whether \<open>s\<close> starts
  at the beginning of the subject.
\<close>

fun matchHere :: "item list \<Rightarrow> bool \<Rightarrow> string \<Rightarrow> bool" where
  "matchHere [] b s = True"
| "matchHere (Bol # r) b s = (b \<and> matchHere r b s)"
| "matchHere (Eol # r) b s = (s = [] \<and> matchHere r b s)"
| "matchHere (Atom a One # r) b [] = False"
| "matchHere (Atom a One # r) b (c # cs) = (atomMatches a c \<and> matchHere r False cs)"
| "matchHere (Atom a Opt # r) b [] = matchHere r b []"
| "matchHere (Atom a Opt # r) b (c # cs) =
     (matchHere r b (c # cs) \<or> (atomMatches a c \<and> matchHere r False cs))"
| "matchHere (Atom a Star # r) b [] = matchHere r b []"
| "matchHere (Atom a Star # r) b (c # cs) =
     (matchHere r b (c # cs) \<or> (atomMatches a c \<and> matchHere (Atom a Star # r) False cs))"
| "matchHere (Atom a Plus # r) b [] = False"
| "matchHere (Atom a Plus # r) b (c # cs) =
     (atomMatches a c \<and> matchHere (Atom a Star # r) False cs)"

text \<open>A regular expression without \<^verbatim>\<open>^\<close> may match at any position of the subject.\<close>

fun search :: "item list \<Rightarrow> bool \<Rightarrow> string \<Rightarrow> bool" where
  "search is b [] = matchHere is b []"
| "search is b (c # cs) = (matchHere is b (c # cs) \<or> search is False cs)"

definition test :: "item list \<Rightarrow> string \<Rightarrow> bool" where
  "test is s = search is True s"

section \<open>The deck record and the requests\<close>

text \<open>
  \<^verbatim>\<open>CreateDeckRequest\<close> (DeckUseCases.ts) holds the fields of a deck without
  \<^verbatim>\<open>id\<close>, \<^verbatim>\<open>createdAt\<close> and \<^verbatim>\<open>updatedAt\<close>; \<^verbatim>\<open>Deck\<close> adds the three. Enumeration
  fields are strings, as they are at run time (the use case casts them with
  \<^verbatim>\<open>as any\<close>); dates are milliseconds. The identifier field is \<open>deck_id\<close>.
\<close>

record CreateDeckRequest =
  name :: string
  description :: string
  colors :: "string list"
  tierRating :: string
  hasCardSleeves :: bool
  isComplete :: bool
  deckType :: string
  gameStage :: string
  storageLocation :: string
  descriptiveImage :: "string option"
  planeswalker :: "string option"

record Deck = CreateDeckRequest +
  deck_id :: string
  createdAt :: int
  updatedAt :: int

text \<open>\<^verbatim>\<open>UpdateDeckRequest\<close>: every field optional; \<open>None\<close> is an absent key.\<close>

record UpdateDeckRequest =
  upd_name :: "string option"
  upd_description :: "string option"
  upd_colors :: "string list option"
  upd_tierRating :: "string option"
  upd_hasCardSleeves :: "bool option"
  upd_isComplete :: "bool option"
  upd_deckType :: "string option"
  upd_gameStage :: "string option"
  upd_storageLocation :: "string option"
  upd_descriptiveImage :: "string option"
  upd_planeswalker :: "string option"

definition MagicColor :: "string list" where
  "MagicColor = [''W'', ''U'', ''B'', ''R'', ''G'', ''C'']"

definition TierRating :: "string list" where
  "TierRating = [''S'', ''A'', ''B'', ''C'', ''D'']"

definition DeckType :: "string list" where
  "DeckType = [''AGGRO'', ''COMBO'', ''CONTROL'']"

definition GameStage :: "string list" where
  "GameStage = [''EARLY'', ''MID'', ''LATE'']"

text \<open>
  The errors the use cases and the repository throw. They are \<^verbatim>\<open>Error\<close> objects
  told apart by their message; each constructor is one message form.
\<close>

datatype error =
    AlreadyExists string  \<comment> \<open>\<^verbatim>\<open>Deck with name '...' already exists\<close>: the conflict error\<close>
  | NotFound string  \<comment> \<open>\<^verbatim>\<open>Deck with id '...' not found\<close>\<close>
  | EntityInvalid string  \<comment> \<open>thrown by \<^verbatim>\<open>DeckEntity.validateDeck\<close>\<close>
  | FailedTo string  \<comment> \<open>\<^verbatim>\<open>Failed to <operation>: ...\<close>, the repository's catch-all\<close>
  | OutsideModel  \<comment> \<open>the request text is a pattern outside the modelled fragment\<close>

fun isConflict :: "error \<Rightarrow> bool" where
  "isConflict (AlreadyExists n) = True"
| "isConflict e = False"

type_synonym store = "Deck list"

section \<open>The entity (Deck.ts)\<close>

definition validateDeck :: "'a CreateDeckRequest_scheme \<Rightarrow> error option" where
  "validateDeck d =
     (if name d = [] \<or> trim (name d) = [] then Some (EntityInvalid ''Deck name is required'')
      else if description d = [] \<or> trim (description d) = []
        then Some (EntityInvalid ''Deck description is required'')
      else if colors d = [] then Some (EntityInvalid ''At least one color is required'')
      else if storageLocation d = [] \<or> trim (storageLocation d) = []
        then Some (EntityInvalid ''Storage location is required'')
      else None)"

text \<open>
  The constructor as \<^verbatim>\<open>createDeck\<close> calls it: \<^verbatim>\<open>id\<close> defaults to the empty string and
  both dates to \<^verbatim>\<open>new Date()\<close>, here \<open>now\<close>.
\<close>

definition DeckEntity :: "int \<Rightarrow> CreateDeckRequest \<Rightarrow> error + Deck" where
  "DeckEntity now r =
     (let d = \<lparr> name = name r, description = description r, colors = colors r,
                tierRating = tierRating r, hasCardSleeves = hasCardSleeves r,
                isComplete = isComplete r, deckType = deckType r, gameStage = gameStage r,
                storageLocation = storageLocation r, descriptiveImage = descriptiveImage r,
                planeswalker = planeswalker r, deck_id = [], createdAt = now, updatedAt = now \<rparr>
      in case validateDeck d of Some e \<Rightarrow> Inl e | None \<Rightarrow> Inr d)"

text \<open>\<^verbatim>\<open>Object.assign(this, updates)\<close>: a key that is present replaces the field.\<close>

definition assign :: "Deck \<Rightarrow> UpdateDeckRequest \<Rightarrow> Deck" where
  "assign d u =
     d \<lparr> name := (case upd_name u of Some v \<Rightarrow> v | None \<Rightarrow> name d),
         description := (case upd_description u of Some v \<Rightarrow> v | None \<Rightarrow> description d),
         colors := (case upd_colors u of Some v \<Rightarrow> v | None \<Rightarrow> colors d),
         tierRating := (case upd_tierRating u of Some v \<Rightarrow> v | None \<Rightarrow> tierRating d),
         hasCardSleeves :=
           (case upd_hasCardSleeves u of Some v \<Rightarrow> v | None \<Rightarrow> hasCardSleeves d),
         isComplete := (case upd_isComplete u of Some v \<Rightarrow> v | None \<Rightarrow> isComplete d),
         deckType := (case upd_deckType u of Some v \<Rightarrow> v | None \<Rightarrow> deckType d),
         gameStage := (case upd_gameStage u of Some v \<Rightarrow> v | None \<Rightarrow> gameStage d),
         storageLocation :=
           (case upd_storageLocation u of Some v \<Rightarrow> v | None \<Rightarrow> storageLocation d),
         descriptiveImage :=
           (case upd_descriptiveImage u of Some v \<Rightarrow> Some v | None \<Rightarrow> descriptiveImage d),
         planeswalker :=
           (case upd_planeswalker u of Some v \<Rightarrow> Some v | None \<Rightarrow> planeswalker d) \<rparr>"

text \<open>\<^verbatim>\<open>DeckEntity.updateDeck\<close>: assign, stamp \<^verbatim>\<open>updatedAt\<close>, validate again.\<close>

definition DeckEntity_updateDeck :: "int \<Rightarrow> Deck \<Rightarrow> UpdateDeckRequest \<Rightarrow> error + Deck" where
  "DeckEntity_updateDeck now d u =
     (let d' = (assign d u) \<lparr> updatedAt := now \<rparr>
      in case validateDeck d' of Some e \<Rightarrow> Inl e | None \<Rightarrow> Inr d')"

section \<open>The schema (DeckSchema.ts)\<close>

text \<open>The \<^verbatim>\<open>trim: true\<close> setters of the schema, applied when a document is built.\<close>

definition applySetters :: "Deck \<Rightarrow> Deck" where
  "applySetters d =
     d \<lparr> name := trim (name d), description := trim (description d),
         storageLocation := trim (storageLocation d),
         descriptiveImage := map_option trim (descriptiveImage d),
         planeswalker := map_option trim (planeswalker d) \<rparr>"

definition applySettersUpdate :: "UpdateDeckRequest \<Rightarrow> UpdateDeckRequest" where
  "applySettersUpdate u =
     u \<lparr> upd_name := map_option trim (upd_name u),
         upd_description := map_option trim (upd_description u),
         upd_storageLocation := map_option trim (upd_storageLocation u),
         upd_descriptiveImage := map_option trim (upd_descriptiveImage u),
         upd_planeswalker := map_option trim (upd_planeswalker u) \<rparr>"

text \<open>
  The validator of \<^verbatim>\<open>descriptiveImage\<close>: an empty value passes, another must match
  \<^verbatim>\<open>/^https?:\/\/.+\.(jpg|jpeg|png|gif|webp)$/i\<close>, written out here: a scheme, at
  least one character that is no line terminator, a dot and an extension.
\<close>

definition imageUrlOk :: "string \<Rightarrow> bool" where
  "imageUrlOk url =
     (url = [] \<or>
      list_ex (\<lambda>scheme.
        list_ex (\<lambda>ext.
          prefix scheme (map toLowerCase url) \<and> suffix ext (map toLowerCase url) \<and>
          length scheme + 1 + length ext \<le> length url \<and>
          list_all (\<lambda>c. c \<noteq> CHR 0x0A \<and> c \<noteq> CHR 0x0D)
            (take (length url - length scheme - length ext) (drop (length scheme) url)))
          [''.jpg'', ''.jpeg'', ''.png'', ''.gif'', ''.webp''])
        [''http://'', ''https://''])"

text \<open>The validators of each path: \<^verbatim>\<open>required\<close>, \<^verbatim>\<open>maxlength\<close>, \<^verbatim>\<open>enum\<close>, \<^verbatim>\<open>validate\<close>.\<close>

definition nameOk :: "string \<Rightarrow> bool" where
  "nameOk v = (v \<noteq> [] \<and> length v \<le> 100)"

definition descriptionOk :: "string \<Rightarrow> bool" where
  "descriptionOk v = (v \<noteq> [] \<and> length v \<le> 500)"

definition colorsOk :: "string list \<Rightarrow> bool" where
  "colorsOk v = (0 < length v \<and> length v \<le> 5 \<and> list_all (\<lambda>c. c \<in> set MagicColor) v)"

definition storageLocationOk :: "string \<Rightarrow> bool" where
  "storageLocationOk v = (v \<noteq> [] \<and> length v \<le> 100)"

definition planeswalkerOk :: "string \<Rightarrow> bool" where
  "planeswalkerOk v = (length v \<le> 50)"

text \<open>Validation of a whole document, as \<^verbatim>\<open>save()\<close> runs it.\<close>

definition schemaValid :: "Deck \<Rightarrow> bool" where
  "schemaValid d =
     (nameOk (name d) \<and> descriptionOk (description d) \<and> colorsOk (colors d) \<and>
      tierRating d \<in> set TierRating \<and> deckType d \<in> set DeckType \<and>
      gameStage d \<in> set GameStage \<and> storageLocationOk (storageLocation d) \<and>
      (case descriptiveImage d of None \<Rightarrow> True | Some v \<Rightarrow> imageUrlOk v) \<and>
      (case planeswalker d of None \<Rightarrow> True | Some v \<Rightarrow> planeswalkerOk v))"

text \<open>Validation of the paths an update sets (\<^verbatim>\<open>runValidators: true\<close>).\<close>

definition onPresent :: "('a \<Rightarrow> bool) \<Rightarrow> 'a option \<Rightarrow> bool" where
  "onPresent ok v = (case v of None \<Rightarrow> True | Some x \<Rightarrow> ok x)"

definition updateValid :: "UpdateDeckRequest \<Rightarrow> bool" where
  "updateValid u =
     (onPresent nameOk (upd_name u) \<and> onPresent descriptionOk (upd_description u) \<and>
      onPresent colorsOk (upd_colors u) \<and>
      onPresent (\<lambda>v. v \<in> set TierRating) (upd_tierRating u) \<and>
      onPresent (\<lambda>v. v \<in> set DeckType) (upd_deckType u) \<and>
      onPresent (\<lambda>v. v \<in> set GameStage) (upd_gameStage u) \<and>
      onPresent storageLocationOk (upd_storageLocation u) \<and>
      onPresent imageUrlOk (upd_descriptiveImage u) \<and>
      onPresent planeswalkerOk (upd_planeswalker u))"

section \<open>The repository (MongoDeckRepository.ts)\<close>

text \<open>
  The collection is the list of its documents in insertion order. The clock reading
  \<open>now\<close> (\<^verbatim>\<open>new Date()\<close>) and the identifier \<open>newId\<close> the driver generates are inputs.
  An operation returns its result and the collection after it; when it throws, the
  collection is the one before.
\<close>

definition isHex :: "char \<Rightarrow> bool" where
  "isHex c = (c \<in> set ''0123456789abcdefABCDEF'')"

text \<open>
  \<^verbatim>\<open>Types.ObjectId.isValid\<close>: a string of 24 hexadecimal digits. Identifiers are stored
  in lower case; the 12-byte form some driver versions accept is not modelled.
\<close>

definition isValidObjectId :: "string \<Rightarrow> bool" where
  "isValidObjectId i = (length i = 24 \<and> list_all isHex i)"

text \<open>
  \<^verbatim>\<open>save()\<close> of a new document: setters, validation, the \<^verbatim>\<open>pre('save')\<close> hook that
  title-cases the name, the timestamps, then the insert, which the unique indexes on
  \<^verbatim>\<open>name\<close> and \<^verbatim>\<open>_id\<close> reject with code 11000.
\<close>

definition create :: "store \<Rightarrow> int \<Rightarrow> string \<Rightarrow> Deck \<Rightarrow> error + (Deck \<times> store)" where
  "create st now newId deck =
     (let doc = applySetters deck in
      if \<not> schemaValid doc then Inl (FailedTo ''create deck'')
      else
        let saved = doc \<lparr> name := titleCase (name doc), deck_id := newId,
                          createdAt := now, updatedAt := now \<rparr> in
        if list_ex (\<lambda>e. name e = name saved \<or> deck_id e = newId) st
        then Inl (AlreadyExists (name deck))
        else Inr (saved, st @ [saved]))"

definition findById :: "store \<Rightarrow> string \<Rightarrow> Deck option" where
  "findById st i =
     (if \<not> isValidObjectId i then None
      else find (\<lambda>d. deck_id d = map toLowerCase i) st)"

text \<open>
  \<^verbatim>\<open>findByIdAndUpdate(id, {...updates, updatedAt: new Date()}, {new: true,
  runValidators: true})\<close>: setters and validators of the paths that are set, then the
  write. It does not run \<^verbatim>\<open>pre('save')\<close>. The unique index on \<^verbatim>\<open>name\<close> rejects a name
  another document holds.
\<close>

definition update ::
  "store \<Rightarrow> int \<Rightarrow> string \<Rightarrow> UpdateDeckRequest \<Rightarrow> error + (Deck option \<times> store)" where
  "update st now i updates =
     (if \<not> isValidObjectId i then Inr (None, st)
      else
        let u = applySettersUpdate updates in
        if \<not> updateValid u then Inl (FailedTo ''update deck'')
        else
          (case find (\<lambda>d. deck_id d = map toLowerCase i) st of
             None \<Rightarrow> Inr (None, st)
           | Some d \<Rightarrow>
               let d' = (assign d u) \<lparr> updatedAt := now \<rparr> in
               if list_ex (\<lambda>e. deck_id e \<noteq> deck_id d \<and> name e = name d') st
               then Inl (AlreadyExists
                      (case upd_name updates of Some n \<Rightarrow> n | None \<Rightarrow> ''undefined''))
               else Inr (Some d', map (\<lambda>e. if deck_id e = deck_id d then d' else e) st)))"

text \<open>
  \<^verbatim>\<open>findOne({ name: new RegExp(`^${name}$`, 'i') })\<close>, commented in the source as
  "Case-insensitive exact match". The constructor runs inside the \<^verbatim>\<open>try\<close>.
\<close>

definition findByName :: "store \<Rightarrow> string \<Rightarrow> error + Deck option" where
  "findByName st n =
     (case compile (''^'' @ n @ ''$'') of
        SyntaxError \<Rightarrow> Inl (FailedTo ''find deck by name'')
      | Unsupported \<Rightarrow> Inl OutsideModel
      | Compiled rx \<Rightarrow> Inr (find (\<lambda>d. test rx (name d)) st))"

section \<open>The use cases (DeckUseCases.ts)\<close>

definition createDeck ::
  "store \<Rightarrow> int \<Rightarrow> string \<Rightarrow> CreateDeckRequest \<Rightarrow> error + (Deck \<times> store)" where
  "createDeck st now newId request =
     (case findByName st (name request) of
        Inl e \<Rightarrow> Inl e
      | Inr (Some existingDeck) \<Rightarrow> Inl (AlreadyExists (name request))
      | Inr None \<Rightarrow>
          (case DeckEntity now request of
             Inl e \<Rightarrow> Inl e
           | Inr deckEntity \<Rightarrow> create st now newId deckEntity))"

text \<open>
  \<^verbatim>\<open>request.name && request.name !== existingDeck.name\<close>: the lookup runs for a name
  that is present, not empty and not equal to the stored name.
\<close>

definition changedName :: "UpdateDeckRequest \<Rightarrow> Deck \<Rightarrow> string option" where
  "changedName request existingDeck =
     (case upd_name request of
        None \<Rightarrow> None
      | Some n \<Rightarrow> if n \<noteq> [] \<and> n \<noteq> name existingDeck then Some n else None)"

definition updateDeck ::
  "store \<Rightarrow> int \<Rightarrow> string \<Rightarrow> UpdateDeckRequest \<Rightarrow> error + (Deck option \<times> store)" where
  "updateDeck st now i request =
     (case findById st i of
        None \<Rightarrow> Inl (NotFound i)
      | Some existingDeck \<Rightarrow>
          (case changedName request existingDeck of
             Some n \<Rightarrow>
               (case findByName st n of
                  Inl e \<Rightarrow> Inl e
                | Inr (Some deckWithSameName) \<Rightarrow> Inl (AlreadyExists n)
                | Inr None \<Rightarrow> update st now i request)
           | None \<Rightarrow> update st now i request))"

section \<open>Listing: filters, sorting and pagination\<close>

text \<open>\<^verbatim>\<open>DeckFilters\<close> (domain/types): every field optional.\<close>

record DeckFilters =
  flt_deckType :: "string option"
  flt_gameStage :: "string option"
  flt_tierRating :: "string option"
  flt_isComplete :: "bool option"
  flt_hasCardSleeves :: "bool option"
  flt_storageLocation :: "string option"

text \<open>
  \<^verbatim>\<open>PaginationOptions\<close> and \<^verbatim>\<open>PaginatedResult\<close>: their declarations are not among the
  sources; the fields are the ones the controller writes and the repository reads.
  The result's \<^verbatim>\<open>page\<close> and \<^verbatim>\<open>limit\<close> are \<open>res_page\<close> and \<open>res_limit\<close>.
\<close>

record PaginationOptions =
  page :: "int option"
  limit :: "int option"
  sortBy :: "string option"
  sortOrder :: "string option"

record PaginatedResult =
  data :: "Deck list"
  total :: int
  res_page :: int
  res_limit :: int
  totalPages :: int

text \<open>The query object \<^verbatim>\<open>buildFilterQuery\<close> returns; a key is present or not.\<close>

record Query =
  q_deckType :: "string option"
  q_gameStage :: "string option"
  q_tierRating :: "string option"
  q_isComplete :: "bool option"
  q_hasCardSleeves :: "bool option"
  q_storageLocation :: "item list option"

text \<open>\<^verbatim>\<open>if (filters.deckType)\<close>: a string is used when it is present and not empty.\<close>

definition truthy :: "string option \<Rightarrow> string option" where
  "truthy v = (case v of None \<Rightarrow> None | Some s \<Rightarrow> if s = [] then None else Some s)"

definition buildFilterQuery :: "DeckFilters option \<Rightarrow> Query compiled" where
  "buildFilterQuery filters =
     (case filters of
        None \<Rightarrow>
          Compiled \<lparr> q_deckType = None, q_gameStage = None, q_tierRating = None,
                     q_isComplete = None, q_hasCardSleeves = None, q_storageLocation = None \<rparr>
      | Some f \<Rightarrow>
          (let q = \<lparr> q_deckType = truthy (flt_deckType f), q_gameStage = truthy (flt_gameStage f),
                     q_tierRating = truthy (flt_tierRating f), q_isComplete = flt_isComplete f,
                     q_hasCardSleeves = flt_hasCardSleeves f, q_storageLocation = None \<rparr>
           in case truthy (flt_storageLocation f) of
                None \<Rightarrow> Compiled q
              | Some l \<Rightarrow>
                  (case compile l of
                     Compiled rx \<Rightarrow> Compiled (q \<lparr> q_storageLocation := Some rx \<rparr>)
                   | SyntaxError \<Rightarrow> SyntaxError
                   | Unsupported \<Rightarrow> Unsupported)))"

text \<open>A document matches the query when it matches every key the query has.\<close>

definition matchesQuery :: "Query \<Rightarrow> Deck \<Rightarrow> bool" where
  "matchesQuery q d =
     (onPresent (\<lambda>v. deckType d = v) (q_deckType q) \<and>
      onPresent (\<lambda>v. gameStage d = v) (q_gameStage q) \<and>
      onPresent (\<lambda>v. tierRating d = v) (q_tierRating q) \<and>
      onPresent (\<lambda>v. isComplete d = v) (q_isComplete q) \<and>
      onPresent (\<lambda>v. hasCardSleeves d = v) (q_hasCardSleeves q) \<and>
      onPresent (\<lambda>rx. test rx (storageLocation d)) (q_storageLocation q))"

subsection \<open>Sorting\<close>

text \<open>
  The store compares strings by their bytes, booleans with false first, and a missing
  value before any other. An array is compared by its smallest element when the sort
  ascends and by its largest when it descends; a field the documents do not have
  compares equal everywhere.
\<close>

datatype sortKey = KMissing | KNum int | KStr string | KBool bool

fun strLe :: "string \<Rightarrow> string \<Rightarrow> bool" where
  "strLe [] ys = True"
| "strLe (x # xs) [] = False"
| "strLe (x # xs) (y # ys) =
     ((of_char x :: nat) < of_char y \<or> (x = y \<and> strLe xs ys))"

fun keyRank :: "sortKey \<Rightarrow> nat" where
  "keyRank KMissing = 0"
| "keyRank (KNum n) = 1"
| "keyRank (KStr s) = 2"
| "keyRank (KBool b) = 3"

fun keyLe :: "sortKey \<Rightarrow> sortKey \<Rightarrow> bool" where
  "keyLe (KNum a) (KNum b) = (a \<le> b)"
| "keyLe (KStr a) (KStr b) = strLe a b"
| "keyLe (KBool a) (KBool b) = (if a then b else True)"
| "keyLe a b = (keyRank a \<le> keyRank b)"

definition optKey :: "string option \<Rightarrow> sortKey" where
  "optKey v = (case v of None \<Rightarrow> KMissing | Some s \<Rightarrow> KStr s)"

fun extreme :: "int \<Rightarrow> string \<Rightarrow> string list \<Rightarrow> string" where
  "extreme dir m [] = m"
| "extreme dir m (x # xs) =
     extreme dir (if (if dir = 1 then strLe x m else strLe m x) then x else m) xs"

definition arrayKey :: "int \<Rightarrow> string list \<Rightarrow> sortKey" where
  "arrayKey dir v = (case v of [] \<Rightarrow> KMissing | x # xs \<Rightarrow> KStr (extreme dir x xs))"

definition sortKeyOf :: "string \<Rightarrow> int \<Rightarrow> Deck \<Rightarrow> sortKey" where
  "sortKeyOf field dir d =
     (if field = ''createdAt'' then KNum (createdAt d)
      else if field = ''updatedAt'' then KNum (updatedAt d)
      else if field = ''name'' then KStr (name d)
      else if field = ''description'' then KStr (description d)
      else if field = ''tierRating'' then KStr (tierRating d)
      else if field = ''deckType'' then KStr (deckType d)
      else if field = ''gameStage'' then KStr (gameStage d)
      else if field = ''storageLocation'' then KStr (storageLocation d)
      else if field = ''_id'' then KStr (deck_id d)
      else if field = ''hasCardSleeves'' then KBool (hasCardSleeves d)
      else if field = ''isComplete'' then KBool (isComplete d)
      else if field = ''descriptiveImage'' then optKey (descriptiveImage d)
      else if field = ''planeswalker'' then optKey (planeswalker d)
      else if field = ''colors'' then arrayKey dir (colors d)
      else KMissing)"

text \<open>\<open>dir\<close> is 1 for ascending and -1 for descending, as in the sort document.\<close>

definition docLe :: "string \<Rightarrow> int \<Rightarrow> Deck \<Rightarrow> Deck \<Rightarrow> bool" where
  "docLe field dir a b =
     (if dir = 1 then keyLe (sortKeyOf field dir a) (sortKeyOf field dir b)
      else keyLe (sortKeyOf field dir b) (sortKeyOf field dir a))"

fun insertBy :: "('a \<Rightarrow> 'a \<Rightarrow> bool) \<Rightarrow> 'a \<Rightarrow> 'a list \<Rightarrow> 'a list" where
  "insertBy le x [] = [x]"
| "insertBy le x (y # ys) = (if le x y then x # y # ys else y # insertBy le x ys)"

text \<open>Documents with equal keys stay in insertion order.\<close>

definition sortDocs :: "string \<Rightarrow> int \<Rightarrow> Deck list \<Rightarrow> Deck list" where
  "sortDocs field dir ds = foldr (insertBy (docLe field dir)) ds []"

subsection \<open>\<^verbatim>\<open>findAll\<close>\<close>

text \<open>\<^verbatim>\<open>value || d\<close> on a number: the default replaces a missing value, NaN and 0.\<close>

definition orDefault :: "int option \<Rightarrow> int \<Rightarrow> int" where
  "orDefault v d = (case v of None \<Rightarrow> d | Some n \<Rightarrow> if n = 0 then d else n)"

text \<open>
  Numbers are integers and the arithmetic is exact, as JavaScript's is up to
  \<^verbatim>\<open>Number.MAX_SAFE_INTEGER\<close>. A \<^verbatim>\<open>skip\<close> or \<^verbatim>\<open>limit\<close> that is negative or beyond that
  bound is left to the store and is outside the model.
\<close>

definition maxSafeInteger :: int where
  "maxSafeInteger = 9007199254740991"

definition effectivePage :: "PaginationOptions option \<Rightarrow> int" where
  "effectivePage pagination = orDefault (Option.bind pagination page) 1"

definition effectiveLimit :: "PaginationOptions option \<Rightarrow> int" where
  "effectiveLimit pagination = orDefault (Option.bind pagination limit) 10"

definition sortFieldOf :: "PaginationOptions option \<Rightarrow> string" where
  "sortFieldOf pagination =
     (case truthy (Option.bind pagination sortBy) of None \<Rightarrow> ''createdAt'' | Some f \<Rightarrow> f)"

definition sortOrderOf :: "PaginationOptions option \<Rightarrow> int" where
  "sortOrderOf pagination = (if Option.bind pagination sortOrder = Some ''asc'' then 1 else - 1)"

definition findAll ::
  "store \<Rightarrow> DeckFilters option \<Rightarrow> PaginationOptions option \<Rightarrow> error + PaginatedResult" where
  "findAll st filters pagination =
     (case buildFilterQuery filters of
        SyntaxError \<Rightarrow> Inl (FailedTo ''find decks'')
      | Unsupported \<Rightarrow> Inl OutsideModel
      | Compiled query \<Rightarrow>
          (let page = effectivePage pagination;
               limit = effectiveLimit pagination;
               skip = (page - 1) * limit;
               matching = filter (matchesQuery query) st;
               documents = take (nat limit) (drop (nat skip)
                             (sortDocs (sortFieldOf pagination) (sortOrderOf pagination) matching));
               total = int (length matching)
           in if skip < 0 \<or> limit < 0 \<or> maxSafeInteger < skip \<or> maxSafeInteger < limit
              then Inl OutsideModel
              else Inr \<lparr> data = documents, total = total, res_page = page, res_limit = limit,
                         totalPages = \<lceil>(of_int total / of_int limit :: rat)\<rceil> \<rparr>))"

text \<open>The use case maps each deck to its response, field by field.\<close>

definition mapDeckToResponse :: "Deck \<Rightarrow> Deck" where
  "mapDeckToResponse deck = deck"

definition getAllDecks ::
  "store \<Rightarrow> DeckFilters option \<Rightarrow> PaginationOptions option \<Rightarrow> error + PaginatedResult" where
  "getAllDecks st filters pagination =
     (case findAll st filters pagination of
        Inl e \<Rightarrow> Inl e
      | Inr result \<Rightarrow> Inr (result \<lparr> data := map mapDeckToResponse (data result) \<rparr>))"

subsection \<open>The controller (DeckController.getAllDecks)\<close>

text \<open>
  \<^verbatim>\<open>parseInt\<close> with no radix: leading white space, a sign, \<^verbatim>\<open>0x\<close> for hexadecimal,
  then the digits up to the first character that is none; \<open>None\<close> is NaN. The value
  is exact; JavaScript rounds one beyond \<^verbatim>\<open>Number.MAX_SAFE_INTEGER\<close>.
\<close>

definition digitOf :: "nat \<Rightarrow> char \<Rightarrow> nat option" where
  "digitOf radix c =
     (let n = (of_char c :: nat);
          v = (if 48 \<le> n \<and> n \<le> 57 then Some (n - 48)
               else if 97 \<le> n \<and> n \<le> 102 then Some (n - 87)
               else if 65 \<le> n \<and> n \<le> 70 then Some (n - 55)
               else None)
      in case v of None \<Rightarrow> None | Some k \<Rightarrow> if k < radix then Some k else None)"

definition digits :: "nat \<Rightarrow> string \<Rightarrow> int option" where
  "digits radix s =
     (let ds = takeWhile (\<lambda>c. digitOf radix c \<noteq> None) s
      in if ds = [] then None
         else Some (foldl (\<lambda>a c. a * int radix + int (case digitOf radix c of Some k \<Rightarrow> k | None \<Rightarrow> 0)) 0 ds))"

definition unsignedInt :: "string \<Rightarrow> int option" where
  "unsignedInt s =
     (if prefix ''0x'' s \<or> prefix ''0X'' s then digits 16 (drop 2 s) else digits 10 s)"

definition parseInt :: "string option \<Rightarrow> int option" where
  "parseInt v =
     (case v of
        None \<Rightarrow> None
      | Some s \<Rightarrow>
          (case dropWhile isWhiteSpace s of
             [] \<Rightarrow> None
           | c # cs \<Rightarrow>
               if c = CHR ''-'' then map_option uminus (unsignedInt cs)
               else if c = CHR ''+'' then unsignedInt cs
               else unsignedInt (c # cs)))"

text \<open>The query string of \<^verbatim>\<open>GET /decks\<close>; \<open>None\<close> is a parameter that is not given.\<close>

record ListQuery =
  qs_page :: "string option"
  qs_limit :: "string option"
  qs_sortBy :: "string option"
  qs_sortOrder :: "string option"
  qs_deckType :: "string option"
  qs_gameStage :: "string option"
  qs_tierRating :: "string option"
  qs_isComplete :: "string option"
  qs_hasCardSleeves :: "string option"
  qs_storageLocation :: "string option"

text \<open>\<^verbatim>\<open>req.query.isComplete ? req.query.isComplete === 'true' : undefined\<close>\<close>

definition boolParam :: "string option \<Rightarrow> bool option" where
  "boolParam v = (case truthy v of None \<Rightarrow> None | Some s \<Rightarrow> Some (s = ''true''))"

definition filtersOf :: "ListQuery \<Rightarrow> DeckFilters" where
  "filtersOf q =
     \<lparr> flt_deckType = qs_deckType q, flt_gameStage = qs_gameStage q,
       flt_tierRating = qs_tierRating q, flt_isComplete = boolParam (qs_isComplete q),
       flt_hasCardSleeves = boolParam (qs_hasCardSleeves q),
       flt_storageLocation = qs_storageLocation q \<rparr>"

text \<open>The pagination options after the two clamping statements.\<close>

definition paginationOf :: "ListQuery \<Rightarrow> PaginationOptions" where
  "paginationOf q =
     (let p = orDefault (parseInt (qs_page q)) 1;
          l = orDefault (parseInt (qs_limit q)) 10
      in \<lparr> page = Some (if p < 1 then 1 else p),
            limit = Some (if l < 1 \<or> l > 100 then 10 else l),
            sortBy = Some (case truthy (qs_sortBy q) of None \<Rightarrow> ''createdAt'' | Some f \<Rightarrow> f),
            sortOrder = Some (case truthy (qs_sortOrder q) of None \<Rightarrow> ''desc'' | Some f \<Rightarrow> f) \<rparr>)"

text \<open>
  The response: 200 with the page, or 500 for any error the use case throws; a filter
  outside the modelled patterns is kept apart.
\<close>

datatype listResponse = Ok200 PaginatedResult | InternalError500 | ResponseOutsideModel

definition getAllDecksHandler :: "store \<Rightarrow> ListQuery \<Rightarrow> listResponse" where
  "getAllDecksHandler st q =
     (case getAllDecks st (Some (filtersOf q)) (Some (paginationOf q)) of
        Inl OutsideModel \<Rightarrow> ResponseOutsideModel
      | Inl e \<Rightarrow> InternalError500
      | Inr result \<Rightarrow> Ok200 result)"

section \<open>Request validation (validationMiddleware.ts)\<close>

text \<open>
  A request body is a JSON object: its keys with their values. The schemas are the two
  Joi objects of the source. Joi itself is a library; its rules are modelled as its
  documentation gives them, for the rules the schemas use. Whether a string is a URI is
  Joi's own test and is a parameter, \<open>isUri\<close>. A message the schema does not override
  is Joi's default text for the error type and is not spelled out.
\<close>

datatype json = JNull | JBool bool | JNumber int | JString string | JArray "json list"

type_synonym body = "(string \<times> json) list"

datatype messageText = Custom string | JoiDefault string

record detail =
  detail_path :: "string list"
  detail_type :: string
  detail_message :: messageText

text \<open>
  \<^verbatim>\<open>Joi.string()\<close> with \<^verbatim>\<open>trim\<close>, \<^verbatim>\<open>min\<close>, \<^verbatim>\<open>max\<close>, \<^verbatim>\<open>valid\<close> and \<^verbatim>\<open>uri\<close>;
  \<^verbatim>\<open>Joi.boolean()\<close>; \<^verbatim>\<open>Joi.array().items(string).min(a).max(b)\<close>.
\<close>

datatype stringRule =
  StringRule (trimmed: bool) (minLength: "nat option") (maxLength: "nat option")
    (valid: "string list option") (uri: bool)

datatype rule = StringOf stringRule | BooleanRule | ArrayOf stringRule nat nat

record keySchema =
  key :: string
  rule :: rule
  required :: bool
  messages :: "(string \<times> string) list"

record objectSchema =
  keys :: "keySchema list"
  minKeys :: nat

definition plainString :: stringRule where
  "plainString = StringRule False None None None False"

definition boundedString :: "nat \<Rightarrow> nat \<Rightarrow> stringRule" where
  "boundedString a b = StringRule True (Some a) (Some b) None False"

definition oneOf :: "string list \<Rightarrow> stringRule" where
  "oneOf vs = StringRule False None None (Some vs) False"

definition createDeckSchema :: objectSchema where
  "createDeckSchema =
     \<lparr> keys =
         [\<lparr> key = ''name'', rule = StringOf (boundedString 1 100), required = True,
            messages = [(''string.empty'', ''Deck name is required''),
                        (''string.min'', ''Deck name must be at least 1 character''),
                        (''string.max'', ''Deck name cannot exceed 100 characters'')] \<rparr>,
          \<lparr> key = ''description'', rule = StringOf (boundedString 1 500), required = True,
            messages = [(''string.empty'', ''Description is required''),
                        (''string.max'', ''Description cannot exceed 500 characters'')] \<rparr>,
          \<lparr> key = ''colors'', rule = ArrayOf (oneOf MagicColor) 1 5, required = True,
            messages = [(''array.min'', ''At least one color is required''),
                        (''array.max'', ''A deck cannot have more than 5 colors''),
                        (''any.only'', ''Invalid magic color'')] \<rparr>,
          \<lparr> key = ''tierRating'', rule = StringOf (oneOf TierRating), required = True,
            messages = [(''any.only'', ''Tier rating must be S, A, B, C, or D'')] \<rparr>,
          \<lparr> key = ''hasCardSleeves'', rule = BooleanRule, required = True,
            messages = [(''any.required'', ''Card sleeves status is required'')] \<rparr>,
          \<lparr> key = ''isComplete'', rule = BooleanRule, required = True,
            messages = [(''any.required'', ''Completion status is required'')] \<rparr>,
          \<lparr> key = ''deckType'', rule = StringOf (oneOf DeckType), required = True,
            messages = [(''any.only'', ''Deck type must be AGGRO, COMBO, or CONTROL'')] \<rparr>,
          \<lparr> key = ''gameStage'', rule = StringOf (oneOf GameStage), required = True,
            messages = [(''any.only'', ''Game stage must be EARLY, MID, or LATE'')] \<rparr>,
          \<lparr> key = ''storageLocation'', rule = StringOf (boundedString 1 100), required = True,
            messages = [(''string.empty'', ''Storage location is required''),
                        (''string.max'', ''Storage location cannot exceed 100 characters'')] \<rparr>,
          \<lparr> key = ''descriptiveImage'',
            rule = StringOf (StringRule False None None None True), required = False,
            messages = [(''string.uri'', ''Descriptive image must be a valid URL'')] \<rparr>,
          \<lparr> key = ''planeswalker'',
            rule = StringOf (StringRule True None (Some 50) None False), required = False,
            messages = [(''string.max'', ''Planeswalker name cannot exceed 50 characters'')] \<rparr>],
       minKeys = 0 \<rparr>"

definition optionalKey :: "string \<Rightarrow> rule \<Rightarrow> keySchema" where
  "optionalKey k r = \<lparr> key = k, rule = r, required = False, messages = [] \<rparr>"

definition updateDeckSchema :: objectSchema where
  "updateDeckSchema =
     \<lparr> keys =
         [optionalKey ''name'' (StringOf (boundedString 1 100)),
          optionalKey ''description'' (StringOf (boundedString 1 500)),
          optionalKey ''colors'' (ArrayOf (oneOf MagicColor) 1 5),
          optionalKey ''tierRating'' (StringOf (oneOf TierRating)),
          optionalKey ''hasCardSleeves'' BooleanRule,
          optionalKey ''isComplete'' BooleanRule,
          optionalKey ''deckType'' (StringOf (oneOf DeckType)),
          optionalKey ''gameStage'' (StringOf (oneOf GameStage)),
          optionalKey ''storageLocation'' (StringOf (boundedString 1 100)),
          optionalKey ''descriptiveImage'' (StringOf (StringRule False None None None True)),
          optionalKey ''planeswalker'' (StringOf (StringRule True None (Some 50) None False))],
       minKeys = 1 \<rparr>"

text \<open>The error types one string raises, after the conversion \<^verbatim>\<open>trim\<close> asks for.\<close>

definition stringErrors :: "(string \<Rightarrow> bool) \<Rightarrow> stringRule \<Rightarrow> string \<Rightarrow> string list" where
  "stringErrors isUri r s0 =
     (let s = (if trimmed r then trim s0 else s0);
          checks =
            (if s = [] then [''string.empty'']
             else (case minLength r of None \<Rightarrow> [] | Some a \<Rightarrow> if length s < a then [''string.min''] else [])
                @ (case maxLength r of None \<Rightarrow> [] | Some b \<Rightarrow> if b < length s then [''string.max''] else [])
                @ (if uri r \<and> \<not> isUri s then [''string.uri''] else []))
      in case valid r of
           None \<Rightarrow> checks
         | Some vs \<Rightarrow> if s \<in> set vs then [] else ''any.only'' # checks)"

definition stringValueErrors :: "(string \<Rightarrow> bool) \<Rightarrow> stringRule \<Rightarrow> json \<Rightarrow> string list" where
  "stringValueErrors isUri r v =
     (case v of
        JString s \<Rightarrow> stringErrors isUri r s
      | _ \<Rightarrow> (case valid r of None \<Rightarrow> [] | Some vs \<Rightarrow> [''any.only'']) @ [''string.base''])"

fun showNat :: "nat \<Rightarrow> string" where
  "showNat n = (if n < 10 then [char_of (48 + n)] else showNat (n div 10) @ [char_of (48 + n mod 10)])"

declare showNat.simps [simp del]

text \<open>The errors of the items of an array, each under the index of its item.\<close>

fun itemErrors ::
  "(string \<Rightarrow> bool) \<Rightarrow> stringRule \<Rightarrow> nat \<Rightarrow> json list \<Rightarrow> (string list \<times> string) list" where
  "itemErrors isUri r i [] = []"
| "itemErrors isUri r i (x # xs) =
     map (\<lambda>t. ([showNat i], t)) (stringValueErrors isUri r x) @ itemErrors isUri r (Suc i) xs"

text \<open>The errors of a value under a rule: the path below the key, and the error type.\<close>

fun ruleErrors :: "(string \<Rightarrow> bool) \<Rightarrow> rule \<Rightarrow> json \<Rightarrow> (string list \<times> string) list" where
  "ruleErrors isUri (StringOf r) v = map (\<lambda>t. ([], t)) (stringValueErrors isUri r v)"
| "ruleErrors isUri BooleanRule (JBool b) = []"
| "ruleErrors isUri BooleanRule (JString s) =
     (if map toLowerCase s = ''true'' \<or> map toLowerCase s = ''false'' then []
      else [([], ''boolean.base'')])"
| "ruleErrors isUri BooleanRule v = [([], ''boolean.base'')]"
| "ruleErrors isUri (ArrayOf r a b) (JArray xs) =
     itemErrors isUri r 0 xs
       @ (if length xs < a then [([], ''array.min'')] else [])
       @ (if b < length xs then [([], ''array.max'')] else [])"
| "ruleErrors isUri (ArrayOf r a b) v = [([], ''array.base'')]"

definition keyErrors ::
  "(string \<Rightarrow> bool) \<Rightarrow> keySchema \<Rightarrow> json option \<Rightarrow> (string list \<times> string) list" where
  "keyErrors isUri ks v =
     (case v of
        None \<Rightarrow> if required ks then [([], ''any.required'')] else []
      | Some x \<Rightarrow> ruleErrors isUri (rule ks) x)"

definition messageFor :: "(string \<times> string) list \<Rightarrow> string \<Rightarrow> messageText" where
  "messageFor ms t = (case map_of ms t of None \<Rightarrow> JoiDefault t | Some m \<Rightarrow> Custom m)"

text \<open>The error types of the rules above, as Joi names them.\<close>

definition errorTypes :: "string list" where
  "errorTypes =
     [''any.required'', ''any.only'', ''string.base'', ''string.empty'', ''string.min'',
      ''string.max'', ''string.uri'', ''boolean.base'', ''array.base'', ''array.min'',
      ''array.max'', ''object.min'']"

definition keyDetails :: "(string \<Rightarrow> bool) \<Rightarrow> keySchema \<Rightarrow> body \<Rightarrow> detail list" where
  "keyDetails isUri ks b =
     map (\<lambda>(p, t). \<lparr> detail_path = key ks # p, detail_type = t,
                      detail_message = messageFor (messages ks) t \<rparr>)
       (keyErrors isUri ks (map_of b (key ks)))"

text \<open>\<^verbatim>\<open>.min(1)\<close> on the object counts the keys left after unknown ones are stripped.\<close>

definition objectDetails :: "objectSchema \<Rightarrow> body \<Rightarrow> detail list" where
  "objectDetails sch b =
     (if length (filter (\<lambda>ks. map_of b (key ks) \<noteq> None) (keys sch)) < minKeys sch
      then [\<lparr> detail_path = [], detail_type = ''object.min'',
              detail_message = JoiDefault ''object.min'' \<rparr>]
      else [])"

text \<open>
  \<^verbatim>\<open>schema.validate(body, { abortEarly, stripUnknown: true })\<close>: with \<^verbatim>\<open>abortEarly\<close>
  validation stops at the first error, without it every error is collected.
\<close>

definition joiValidate :: "bool \<Rightarrow> (string \<Rightarrow> bool) \<Rightarrow> objectSchema \<Rightarrow> body \<Rightarrow> detail list" where
  "joiValidate abortEarly isUri sch b =
     (let found = concat (map (\<lambda>ks. keyDetails isUri ks b) (keys sch)) @ objectDetails sch b
      in if abortEarly then take 1 found else found)"

text \<open>The value Joi returns: known keys only, strings trimmed, booleans converted.\<close>

fun converted :: "rule \<Rightarrow> json \<Rightarrow> json" where
  "converted (StringOf r) (JString s) = JString (if trimmed r then trim s else s)"
| "converted BooleanRule (JString s) =
     (if map toLowerCase s = ''true'' then JBool True
      else if map toLowerCase s = ''false'' then JBool False else JString s)"
| "converted r v = v"

definition joiValue :: "objectSchema \<Rightarrow> body \<Rightarrow> body" where
  "joiValue sch b =
     List.map_filter
       (\<lambda>ks. map_option (\<lambda>v. (key ks, converted (rule ks) v)) (map_of b (key ks))) (keys sch)"

text \<open>\<^verbatim>\<open>detail.path.join('.')\<close>\<close>

fun joinDot :: "string list \<Rightarrow> string" where
  "joinDot [] = []"
| "joinDot [p] = p"
| "joinDot (p # q # ps) = p @ CHR ''.'' # joinDot (q # ps)"

record fieldMessage =
  field :: string
  message :: messageText

text \<open>The middleware answers 400 with the details, or hands the converted body on.\<close>

datatype validationResult = Next body | Status400 "fieldMessage list"

definition respond :: "(string \<Rightarrow> bool) \<Rightarrow> objectSchema \<Rightarrow> body \<Rightarrow> validationResult" where
  "respond isUri sch b =
     (case joiValidate False isUri sch b of
        [] \<Rightarrow> Next (joiValue sch b)
      | d # ds \<Rightarrow>
          Status400 (map (\<lambda>detail. \<lparr> field = joinDot (detail_path detail),
                                      message = detail_message detail \<rparr>) (d # ds)))"

definition validateCreateDeck :: "(string \<Rightarrow> bool) \<Rightarrow> body \<Rightarrow> validationResult" where
  "validateCreateDeck isUri b = respond isUri createDeckSchema b"

definition validateUpdateDeck :: "(string \<Rightarrow> bool) \<Rightarrow> body \<Rightarrow> validationResult" where
  "validateUpdateDeck isUri b = respond isUri updateDeckSchema b"

section \<open>What the specification says, in its own words\<close>

text \<open>Two names are the same when they differ in the case of their letters only.\<close>

definition equalIgnoringCase :: "string \<Rightarrow> string \<Rightarrow> bool" where
  "equalIgnoringCase a b = (map toLowerCase a = map toLowerCase b)"

text \<open>"A deck with the same name (case-insensitive) already exists."\<close>

definition nameTaken :: "store \<Rightarrow> string \<Rightarrow> bool" where
  "nameTaken st n = list_ex (\<lambda>d. equalIgnoringCase (name d) n) st"

text \<open>The same, among the records other than the one with identifier \<open>i\<close>.\<close>

definition nameTakenByOther :: "store \<Rightarrow> string \<Rightarrow> string \<Rightarrow> bool" where
  "nameTakenByOther st i n =
     list_ex (\<lambda>d. deck_id d \<noteq> i \<and> equalIgnoringCase (name d) n) st"

text \<open>"Case-insensitive substring match."\<close>

definition containsIgnoringCase :: "string \<Rightarrow> string \<Rightarrow> bool" where
  "containsIgnoringCase part whole = sublist (map toLowerCase part) (map toLowerCase whole)"

text \<open>
  "A record matches every supplied filter; omitted filters impose no constraint; the
  storage-location filter matches by case-insensitive substring, all others exactly."
\<close>

definition filterHolds :: "DeckFilters \<Rightarrow> Deck \<Rightarrow> bool" where
  "filterHolds f d =
     (onPresent (\<lambda>v. deckType d = v) (flt_deckType f) \<and>
      onPresent (\<lambda>v. gameStage d = v) (flt_gameStage f) \<and>
      onPresent (\<lambda>v. tierRating d = v) (flt_tierRating f) \<and>
      onPresent (\<lambda>v. isComplete d = v) (flt_isComplete f) \<and>
      onPresent (\<lambda>v. hasCardSleeves d = v) (flt_hasCardSleeves f) \<and>
      onPresent (\<lambda>v. containsIgnoringCase v (storageLocation d)) (flt_storageLocation f))"

text \<open>
  "A limit outside [1,100] is clamped to the default (10); a page below 1 is clamped
  to 1." The argument is the number the request gave, if it gave one.
\<close>

definition clampedLimit :: "int option \<Rightarrow> int" where
  "clampedLimit v = (case v of None \<Rightarrow> 10 | Some l \<Rightarrow> if 1 \<le> l \<and> l \<le> 100 then l else 10)"

definition clampedPage :: "int option \<Rightarrow> int" where
  "clampedPage v = (case v of None \<Rightarrow> 1 | Some p \<Rightarrow> if p < 1 then 1 else p)"

text \<open>
  Filters whose text is taken literally: no enumeration filter is the empty string, and
  the storage-location text has no character of the pattern syntax.
\<close>

definition literalFilters :: "DeckFilters \<Rightarrow> bool" where
  "literalFilters f =
     (flt_deckType f \<noteq> Some [] \<and> flt_gameStage f \<noteq> Some [] \<and> flt_tierRating f \<noteq> Some [] \<and>
      onPresent (list_all plainChar) (flt_storageLocation f))"

text \<open>
  What a schema asks of a value: a string, trimmed if the rule says so, that is one of
  the allowed values or, where none are listed, is not empty, has a length within the
  bounds and is a URI if asked; a boolean or the word for one; an array with a length
  within the bounds whose items are all accepted.
\<close>

definition stringAccepted :: "(string \<Rightarrow> bool) \<Rightarrow> stringRule \<Rightarrow> json \<Rightarrow> bool" where
  "stringAccepted isUri r v =
     (case v of
        JString s0 \<Rightarrow>
          (let s = (if trimmed r then trim s0 else s0) in
           case valid r of
             Some vs \<Rightarrow> s \<in> set vs
           | None \<Rightarrow>
               s \<noteq> [] \<and>
               (case minLength r of None \<Rightarrow> True | Some a \<Rightarrow> a \<le> length s) \<and>
               (case maxLength r of None \<Rightarrow> True | Some b \<Rightarrow> length s \<le> b) \<and>
               (if uri r then isUri s else True))
      | _ \<Rightarrow> False)"

fun accepted :: "(string \<Rightarrow> bool) \<Rightarrow> rule \<Rightarrow> json \<Rightarrow> bool" where
  "accepted isUri (StringOf r) v = stringAccepted isUri r v"
| "accepted isUri BooleanRule (JBool b) = True"
| "accepted isUri BooleanRule (JString s) =
     (map toLowerCase s = ''true'' \<or> map toLowerCase s = ''false'')"
| "accepted isUri BooleanRule v = False"
| "accepted isUri (ArrayOf r a b) (JArray xs) =
     (a \<le> length xs \<and> length xs \<le> b \<and> list_all (stringAccepted isUri r) xs)"
| "accepted isUri (ArrayOf r a b) v = False"

definition fieldAccepted :: "(string \<Rightarrow> bool) \<Rightarrow> keySchema \<Rightarrow> body \<Rightarrow> bool" where
  "fieldAccepted isUri ks b =
     (case map_of b (key ks) of
        None \<Rightarrow> \<not> required ks
      | Some v \<Rightarrow> accepted isUri (rule ks) v)"

text \<open>"The fields of a body that violate the schema": the keys with a value not accepted.\<close>

definition violatingFields :: "(string \<Rightarrow> bool) \<Rightarrow> objectSchema \<Rightarrow> body \<Rightarrow> string list" where
  "violatingFields isUri sch b =
     map key (filter (\<lambda>ks. \<not> fieldAccepted isUri ks b) (keys sch))"

text \<open>A reported field belongs to a key: it is the key, or an item under it.\<close>

definition reportsField :: "fieldMessage list \<Rightarrow> string \<Rightarrow> bool" where
  "reportsField fms k = list_ex (\<lambda>fm. field fm = k \<or> prefix (k @ ''.'') (field fm)) fms"

text \<open>
  "All violations": the places of a body that violate the schema, each under the name
  the response gives it. An item of an array that the item rule does not accept is a
  place of its own, \<open>key.index\<close>; the array is one when its length is outside the
  bounds. Any other value is a place when the rule does not accept it, a missing field
  when the schema requires it, and the body itself, under the empty name, when it has
  fewer known fields than the schema asks for.
\<close>

definition itemPlaces ::
  "(string \<Rightarrow> bool) \<Rightarrow> stringRule \<Rightarrow> string \<Rightarrow> json list \<Rightarrow> string list" where
  "itemPlaces isUri r k xs =
     map (\<lambda>(i, x). k @ ''.'' @ showNat i)
       (filter (\<lambda>(i, x). \<not> stringAccepted isUri r x) (enumerate 0 xs))"

fun valuePlaces :: "(string \<Rightarrow> bool) \<Rightarrow> rule \<Rightarrow> string \<Rightarrow> json \<Rightarrow> string list" where
  "valuePlaces isUri (ArrayOf r a c) k (JArray xs) =
     itemPlaces isUri r k xs @ (if a \<le> length xs \<and> length xs \<le> c then [] else [k])"
| "valuePlaces isUri r k v = (if accepted isUri r v then [] else [k])"

definition fieldPlaces :: "(string \<Rightarrow> bool) \<Rightarrow> keySchema \<Rightarrow> body \<Rightarrow> string list" where
  "fieldPlaces isUri ks b =
     (case map_of b (key ks) of
        None \<Rightarrow> if required ks then [key ks] else []
      | Some v \<Rightarrow> valuePlaces isUri (rule ks) (key ks) v)"

definition violatingPlaces :: "(string \<Rightarrow> bool) \<Rightarrow> objectSchema \<Rightarrow> body \<Rightarrow> string list" where
  "violatingPlaces isUri sch b =
     concat (map (\<lambda>ks. fieldPlaces isUri ks b) (keys sch))
       @ (if length (filter (\<lambda>ks. map_of b (key ks) \<noteq> None) (keys sch)) < minKeys sch
          then [[]] else [])"

text \<open>
  "As \<open>{field, message}\<close> pairs": the message of a pair belongs to its field. It is a
  text the schema sets for that field, or Joi's own text for an error type the schema
  sets no text for; under the empty name it is Joi's text for too few fields.
\<close>

definition schemaMessage :: "objectSchema \<Rightarrow> fieldMessage \<Rightarrow> bool" where
  "schemaMessage sch fm =
     (list_ex (\<lambda>ks. (field fm = key ks \<or> prefix (key ks @ ''.'') (field fm)) \<and>
                (case message fm of
                   Custom m \<Rightarrow> m \<in> snd ` set (messages ks)
                 | JoiDefault t \<Rightarrow> t \<in> set errorTypes \<and> t \<notin> fst ` set (messages ks)))
        (keys sch)
      \<or> (field fm = [] \<and> message fm = JoiDefault ''object.min''))"

text \<open>A name is title-cased when title-casing leaves it as it is.\<close>

definition isTitleCased :: "string \<Rightarrow> bool" where
  "isTitleCased n = (titleCase n = n)"

text \<open>
  What the unique index on \<^verbatim>\<open>name\<close> and the \<^verbatim>\<open>trim\<close> setter keep true of a
  collection: no two documents have the same name, and no name has white space at
  either end.
\<close>

definition uniqueNames :: "store \<Rightarrow> bool" where
  "uniqueNames st = (distinct (map name st) \<and> list_all (\<lambda>d. trim (name d) = name d) st)"

section \<open>Definitions for the proofs\<close>

text \<open>The numbers of a page request are ones JavaScript holds exactly.\<close>

definition exactNumbers :: "PaginationOptions option \<Rightarrow> bool" where
  "exactNumbers pagination =
     ((effectivePage pagination - 1) * effectiveLimit pagination \<le> maxSafeInteger \<and>
      effectiveLimit pagination \<le> maxSafeInteger)"

text \<open>
  Title-casing in one pass over the characters: \<open>b\<close> says whether the next character
  starts a word. Shown below to be \<open>titleCase\<close>.
\<close>

fun titleFrom :: "bool \<Rightarrow> string \<Rightarrow> string" where
  "titleFrom b [] = []"
| "titleFrom b (c # cs) =
     (if c = CHR '' '' then c # titleFrom True cs
      else (if b then toUpperCase c else toLowerCase c) # titleFrom False cs)"

text \<open>
  The collections the store can hold: identifiers are unique, names are unique, and no
  name has white space at either end.
\<close>

definition storeInvariant :: "store \<Rightarrow> bool" where
  "storeInvariant st = (distinct (map deck_id st) \<and> uniqueNames st)"

section \<open>Examples\<close>

definition id1 :: string where
  "id1 = ''64b7f0c2a1d3e4f506172831''"

definition id2 :: string where
  "id2 = ''64b7f0c2a1d3e4f506172832''"

definition exampleRequest :: "string \<Rightarrow> CreateDeckRequest" where
  "exampleRequest n =
     \<lparr> name = n, description = ''Fast red deck'', colors = [''R''], tierRating = ''A'',
       hasCardSleeves = True, isComplete = True, deckType = ''AGGRO'', gameStage = ''EARLY'',
       storageLocation = ''Red Box 1'', descriptiveImage = None, planeswalker = None \<rparr>"

text \<open>The document \<^verbatim>\<open>exampleRequest\<close> is stored as, under a name, an identifier and a time.\<close>

definition exampleDeck :: "string \<Rightarrow> string \<Rightarrow> int \<Rightarrow> Deck" where
  "exampleDeck n i t =
     \<lparr> name = n, description = ''Fast red deck'', colors = [''R''], tierRating = ''A'',
       hasCardSleeves = True, isComplete = True, deckType = ''AGGRO'', gameStage = ''EARLY'',
       storageLocation = ''Red Box 1'', descriptiveImage = None, planeswalker = None,
       deck_id = i, createdAt = t, updatedAt = t \<rparr>"

definition noChange :: UpdateDeckRequest where
  "noChange =
     \<lparr> upd_name = None, upd_description = None, upd_colors = None, upd_tierRating = None,
       upd_hasCardSleeves = None, upd_isComplete = None, upd_deckType = None,
       upd_gameStage = None, upd_storageLocation = None, upd_descriptiveImage = None,
       upd_planeswalker = None \<rparr>"

definition rename :: "string \<Rightarrow> UpdateDeckRequest" where
  "rename n = noChange \<lparr> upd_name := Some n \<rparr>"

definition noFilters :: DeckFilters where
  "noFilters =
     \<lparr> flt_deckType = None, flt_gameStage = None, flt_tierRating = None,
       flt_isComplete = None, flt_hasCardSleeves = None, flt_storageLocation = None \<rparr>"

definition noQuery :: ListQuery where
  "noQuery =
     \<lparr> qs_page = None, qs_limit = None, qs_sortBy = None, qs_sortOrder = None,
       qs_deckType = None, qs_gameStage = None, qs_tierRating = None, qs_isComplete = None,
       qs_hasCardSleeves = None, qs_storageLocation = None \<rparr>"

definition shelved :: Deck where
  "shelved = (exampleDeck ''Shelved'' id2 2) \<lparr> storageLocation := ''Shelf'' \<rparr>"

definition threeDecks :: store where
  "threeDecks =
     [exampleDeck ''Ab'' id1 1, shelved, exampleDeck ''Cd'' ''64b7f0c2a1d3e4f506172833'' 3]"

definition locatedAt :: "string \<Rightarrow> DeckFilters" where
  "locatedAt l = noFilters \<lparr> flt_storageLocation := Some l \<rparr>"

definition ofType :: "string \<Rightarrow> DeckFilters" where
  "ofType t = noFilters \<lparr> flt_deckType := Some t \<rparr>"

definition pageOf :: "int \<Rightarrow> int \<Rightarrow> PaginationOptions" where
  "pageOf p l = \<lparr> page = Some p, limit = Some l, sortBy = None, sortOrder = None \<rparr>"

definition wildQuery :: ListQuery where
  "wildQuery = noQuery \<lparr> qs_page := Some ''-3'', qs_limit := Some ''500'' \<rparr>"

definition describe :: "string \<Rightarrow> UpdateDeckRequest" where
  "describe t = noChange \<lparr> upd_description := Some t \<rparr>"

text \<open>A body with an empty name, two colours and a tier that do not exist.\<close>

definition threeMistakes :: body where
  "threeMistakes =
     [(''name'', JString []), (''description'', JString ''Fast red deck''),
      (''colors'', JArray [JString ''X'', JString ''R'', JString ''Y'']),
      (''tierRating'', JString ''Z''), (''hasCardSleeves'', JBool True),
      (''isComplete'', JBool False), (''deckType'', JString ''AGGRO''),
      (''gameStage'', JString ''EARLY''), (''storageLocation'', JString ''Red Box 1'')]"

text \<open>A body both schemas accept, with a name to trim and a field they do not know.\<close>

definition tidy :: body where
  "tidy =
     [(''name'', JString ''  Burn ''), (''description'', JString ''Fast red deck''),
      (''colors'', JArray [JString ''R'']), (''tierRating'', JString ''A''),
      (''hasCardSleeves'', JString ''TRUE''), (''isComplete'', JBool False),
      (''deckType'', JString ''AGGRO''), (''gameStage'', JString ''EARLY''),
      (''storageLocation'', JString ''Red Box 1''), (''owner'', JString ''me'')]"

section \<open>Case folding and patterns without syntax characters\<close>

lemma of_char_below: "(of_char (c::char) :: nat) < 256"
  by (metis of_char_mod_256 mod_less_divisor zero_less_numeral)

lemma lower_upper: "toLowerCase (toUpperCase c) = toLowerCase c"
  using of_char_below [of c] by (auto simp: toLowerCase_def toUpperCase_def Let_def)

lemma upper_lower: "toUpperCase (toLowerCase c) = toUpperCase c"
  using of_char_below [of c] by (auto simp: toLowerCase_def toUpperCase_def Let_def)

lemma fold_comp:
  "toLowerCase \<circ> toUpperCase = toLowerCase" "toUpperCase \<circ> toLowerCase = toUpperCase"
  by (simp_all add: fun_eq_iff lower_upper upper_lower)

lemma upper_eq_lower_eq:
  "map toUpperCase a = map toUpperCase b \<longleftrightarrow> map toLowerCase a = map toLowerCase b"
proof
  assume "map toUpperCase a = map toUpperCase b"
  then have "map toLowerCase (map toUpperCase a) = map toLowerCase (map toUpperCase b)" by simp
  then show "map toLowerCase a = map toLowerCase b" by (simp add: fold_comp)
next
  assume "map toLowerCase a = map toLowerCase b"
  then have "map toUpperCase (map toLowerCase a) = map toUpperCase (map toLowerCase b)" by simp
  then show "map toUpperCase a = map toUpperCase b" by (simp add: fold_comp)
qed

lemma sublist_upper_lower:
  "sublist (map toUpperCase a) (map toUpperCase b) \<longleftrightarrow>
     sublist (map toLowerCase a) (map toLowerCase b)"
proof
  assume "sublist (map toUpperCase a) (map toUpperCase b)"
  then have "sublist (map toLowerCase (map toUpperCase a)) (map toLowerCase (map toUpperCase b))"
    by (rule map_mono_sublist)
  then show "sublist (map toLowerCase a) (map toLowerCase b)" by (simp add: fold_comp)
next
  assume "sublist (map toLowerCase a) (map toLowerCase b)"
  then have "sublist (map toUpperCase (map toLowerCase a)) (map toUpperCase (map toLowerCase b))"
    by (rule map_mono_sublist)
  then show "sublist (map toUpperCase a) (map toUpperCase b)" by (simp add: fold_comp)
qed

lemma plain_token: "plainChar c \<Longrightarrow> c \<noteq> backslash \<and> tokenOf c = TAtom (Lit c)"
  by (auto simp: plainChar_def syntaxChars_def tokenOf_def)

lemma lex_plain: "list_all plainChar n \<Longrightarrow> lex (n @ r) = map (\<lambda>c. TAtom (Lit c)) n @ lex r"
  by (induction n) (auto simp: plain_token)

lemma items_lits_eol:
  "items (map (\<lambda>c. TAtom (Lit c)) n @ [TEol]) = Compiled (map (\<lambda>c. Atom (Lit c) One) n @ [Eol])"
proof (induction n)
  case Nil
  show ?case by (simp add: andThen_def)
next
  case (Cons c n)
  then show ?case by (cases n) (simp_all add: andThen_def)
qed

lemma items_lits:
  "items (map (\<lambda>c. TAtom (Lit c)) n) = Compiled (map (\<lambda>c. Atom (Lit c) One) n)"
proof (induction n)
  case Nil
  show ?case by simp
next
  case (Cons c n)
  then show ?case by (cases n) (simp_all add: andThen_def)
qed

lemma matchHere_lits_eol:
  "matchHere (map (\<lambda>c. Atom (Lit c) One) n @ [Eol]) b s \<longleftrightarrow>
     map toUpperCase s = map toUpperCase n"
proof (induction n arbitrary: s b)
  case Nil
  show ?case by auto
next
  case (Cons c n)
  show ?case by (cases s) (auto simp: Cons.IH)
qed

lemma matchHere_lits:
  "matchHere (map (\<lambda>c. Atom (Lit c) One) p) b s \<longleftrightarrow>
     prefix (map toUpperCase p) (map toUpperCase s)"
proof (induction p arbitrary: s b)
  case Nil
  show ?case by simp
next
  case (Cons c p)
  show ?case by (cases s) (auto simp: Cons.IH)
qed

lemma search_bol_later: "search (Bol # r) False s = False"
  by (induction s) auto

lemma test_anchored: "test (Bol # r) s = matchHere r True s"
  by (cases s) (auto simp: test_def search_bol_later)

lemma search_lits:
  "search (map (\<lambda>c. Atom (Lit c) One) p) b s \<longleftrightarrow>
     sublist (map toUpperCase p) (map toUpperCase s)"
proof (induction s arbitrary: b)
  case Nil
  show ?case by (simp add: matchHere_lits)
next
  case (Cons c s)
  show ?case by (simp add: matchHere_lits Cons.IH sublist_Cons_right)
qed

lemma compile_anchored_plain:
  "list_all plainChar n \<Longrightarrow>
   compile (''^'' @ n @ ''$'') = Compiled (Bol # map (\<lambda>c. Atom (Lit c) One) n @ [Eol])"
  by (simp add: compile_def lex_plain backslash_def tokenOf_def items_lits_eol andThen_def)

lemma compile_plain:
  "list_all plainChar p \<Longrightarrow> compile p = Compiled (map (\<lambda>c. Atom (Lit c) One) p)"
  using lex_plain [of p "[]"] by (simp add: compile_def items_lits)

lemma test_plain:
  "test (map (\<lambda>c. Atom (Lit c) One) p) s = containsIgnoringCase p s"
  by (simp add: test_def search_lits containsIgnoringCase_def sublist_upper_lower)

text \<open>
  For a name without syntax characters the lookup is the case-insensitive exact match
  its comment announces.
\<close>

lemma findByName_plain:
  "list_all plainChar n \<Longrightarrow>
   findByName st n = Inr (find (\<lambda>d. equalIgnoringCase (name d) n) st)"
  using compile_anchored_plain [of n]
  by (simp add: findByName_def test_anchored matchHere_lits_eol upper_eq_lower_eq
      equalIgnoringCase_def)

section \<open>Title-casing and trimming\<close>

lemma split_space_nonempty: "split_space s \<noteq> []"
  by (induction s) (auto split: list.splits)

lemma join_space_Cons: "ws \<noteq> [] \<Longrightarrow> join_space (w # ws) = w @ CHR '' '' # join_space ws"
  by (cases ws) auto

lemma join_space_head: "join_space ((c # w) # ws) = c # join_space (w # ws)"
  by (cases ws) auto

lemma title_words:
  "split_space s = w # ws \<Longrightarrow>
   join_space ((if b then capitalize w else map toLowerCase w) # map capitalize ws) = titleFrom b s"
proof (induction s arbitrary: w ws b)
  case Nil
  then show ?case by auto
next
  case (Cons c cs)
  obtain v vs where v: "split_space cs = v # vs"
    using split_space_nonempty [of cs] by (cases "split_space cs") auto
  show ?case
  proof (cases "c = CHR '' ''")
    case True
    with Cons.prems v have w: "w = []" "ws = v # vs" by auto
    from Cons.IH [OF v, of True] have "join_space (map capitalize (v # vs)) = titleFrom True cs"
      by simp
    with True w show ?thesis by simp
  next
    case False
    with Cons.prems v obtain w: "w = c # v" "ws = vs" by auto
    from Cons.IH [OF v, of False]
    have "join_space (map toLowerCase v # map capitalize vs) = titleFrom False cs" by simp
    with False w show ?thesis by (simp add: join_space_head)
  qed
qed

lemma titleCase_titleFrom: "titleCase s = titleFrom True s"
proof -
  obtain w ws where "split_space s = w # ws"
    using split_space_nonempty [of s] by (cases "split_space s") auto
  with title_words [OF this, of True] show ?thesis by (simp add: titleCase_def)
qed

lemma upper_upper: "toUpperCase (toUpperCase c) = toUpperCase c"
  using of_char_below [of c] by (auto simp: toUpperCase_def Let_def)

lemma lower_lower: "toLowerCase (toLowerCase c) = toLowerCase c"
  using of_char_below [of c] by (auto simp: toLowerCase_def Let_def)

lemma of_char_eq_iff': "(of_char c :: nat) = of_char d \<longleftrightarrow> c = d"
  by (metis char_of_char)

lemma case_not_space:
  "toUpperCase c = CHR '' '' \<longleftrightarrow> c = CHR '' ''" "toLowerCase c = CHR '' '' \<longleftrightarrow> c = CHR '' ''"
  using of_char_below [of c] of_char_eq_iff' [of "char_of (of_char c - 32 :: nat)" "CHR '' ''"]
    of_char_eq_iff' [of "char_of (of_char c + 32 :: nat)" "CHR '' ''"]
  by (auto simp: toUpperCase_def toLowerCase_def Let_def)

lemma titleFrom_idem: "titleFrom b (titleFrom b s) = titleFrom b s"
  by (induction s arbitrary: b) (auto simp: case_not_space upper_upper lower_lower)

lemma titleCase_idem: "isTitleCased (titleCase s)"
  by (simp add: isTitleCased_def titleCase_titleFrom titleFrom_idem)

lemma case_whitespace:
  "isWhiteSpace (toUpperCase c) = isWhiteSpace c" "isWhiteSpace (toLowerCase c) = isWhiteSpace c"
  using of_char_below [of c]
  by (auto simp: toUpperCase_def toLowerCase_def isWhiteSpace_def Let_def)

lemma titleFrom_whitespace: "map isWhiteSpace (titleFrom b s) = map isWhiteSpace s"
  by (induction s arbitrary: b) (auto simp: case_whitespace)

lemma last_dropWhile: "dropWhile P xs \<noteq> [] \<Longrightarrow> last (dropWhile P xs) = last xs"
  by (induction xs) (auto split: if_splits)

lemma trim_fixed_iff:
  "trim s = s \<longleftrightarrow> s = [] \<or> (\<not> isWhiteSpace (hd s) \<and> \<not> isWhiteSpace (last s))"
proof (cases "s = []")
  case True
  then show ?thesis by (simp add: trim_def)
next
  case False
  show ?thesis
  proof
    assume fixed: "trim s = s"
    let ?t = "dropWhile isWhiteSpace s"
    let ?u = "dropWhile isWhiteSpace (rev ?t)"
    from fixed have u: "?u = rev s" by (metis trim_def rev_rev_ident)
    with False have u_ne: "?u \<noteq> []" by simp
    then have t_ne: "?t \<noteq> []" by (metis dropWhile.simps(1) rev_is_Nil_conv)
    have "\<not> isWhiteSpace (hd ?u)" using u_ne by (rule hd_dropWhile)
    then have l: "\<not> isWhiteSpace (last s)" using False by (simp add: u hd_rev)
    have "last ?u = last (rev ?t)" using u_ne by (rule last_dropWhile)
    then have "hd s = hd ?t" using False t_ne by (simp add: u last_rev)
    moreover have "\<not> isWhiteSpace (hd ?t)" using t_ne by (rule hd_dropWhile)
    ultimately show "s = [] \<or> (\<not> isWhiteSpace (hd s) \<and> \<not> isWhiteSpace (last s))"
      using l by simp
  next
    assume "s = [] \<or> (\<not> isWhiteSpace (hd s) \<and> \<not> isWhiteSpace (last s))"
    with False have h: "\<not> isWhiteSpace (hd s)" and l: "\<not> isWhiteSpace (last s)" by auto
    from h False have "dropWhile isWhiteSpace s = s" by (cases s) auto
    moreover from l False have "dropWhile isWhiteSpace (rev s) = rev s"
      by (cases "rev s") (auto simp: last_rev [symmetric] hd_rev)
    ultimately show "trim s = s" by (simp add: trim_def)
  qed
qed

lemma trim_idem: "trim (trim s) = trim s"
proof -
  let ?t = "dropWhile isWhiteSpace s"
  let ?u = "dropWhile isWhiteSpace (rev ?t)"
  have ts: "trim s = rev ?u" by (simp add: trim_def)
  show ?thesis
  proof (cases "?u = []")
    case True
    with ts have "trim s = []" by simp
    then show ?thesis by (simp only:) (simp add: trim_def)
  next
    case False
    then have t_ne: "?t \<noteq> []" by (metis dropWhile.simps(1) rev_is_Nil_conv)
    have "\<not> isWhiteSpace (hd ?u)" using False by (rule hd_dropWhile)
    then have l: "\<not> isWhiteSpace (last (rev ?u))" using False by (simp add: last_rev)
    have "last ?u = last (rev ?t)" using False by (rule last_dropWhile)
    then have "hd (rev ?u) = hd ?t" using False t_ne by (simp add: hd_rev last_rev)
    moreover have "\<not> isWhiteSpace (hd ?t)" using t_ne by (rule hd_dropWhile)
    ultimately have "\<not> isWhiteSpace (hd (rev ?u))" by simp
    with l show ?thesis unfolding ts by (subst trim_fixed_iff) simp
  qed
qed

lemma trim_fixed_by_whitespace:
  assumes "map isWhiteSpace a = map isWhiteSpace b"
  shows "trim a = a \<longleftrightarrow> trim b = b"
proof (cases "a = []")
  case True
  with assms show ?thesis by (simp add: trim_def)
next
  case False
  with assms have b: "b \<noteq> []" by auto
  have "isWhiteSpace (hd a) = hd (map isWhiteSpace a)" "isWhiteSpace (last a) = last (map isWhiteSpace a)"
    using False by (simp_all add: hd_map last_map)
  moreover have "isWhiteSpace (hd b) = hd (map isWhiteSpace b)" "isWhiteSpace (last b) = last (map isWhiteSpace b)"
    using b by (simp_all add: hd_map last_map)
  ultimately show ?thesis
    using assms False b by (simp add: trim_fixed_iff)
qed

lemma titleCase_trimmed: "trim s = s \<Longrightarrow> trim (titleCase s) = titleCase s"
  using trim_fixed_by_whitespace [of "titleCase s" s]
  by (simp add: titleCase_titleFrom titleFrom_whitespace)

section \<open>Creating and updating\<close>

lemma find_after_map:
  "find P (map f xs) = map_option f (find (\<lambda>x. P (f x)) xs)"
  by (induction xs) auto

lemma assign_keeps:
  "deck_id (assign d u) = deck_id d" "createdAt (assign d u) = createdAt d"
  by (simp_all add: assign_def)

lemma findById_Some:
  "findById st i = Some d \<Longrightarrow>
     isValidObjectId i \<and> find (\<lambda>e. deck_id e = map toLowerCase i) st = Some d \<and>
     d \<in> set st \<and> deck_id d = map toLowerCase i"
  by (auto simp: findById_def find_Some_iff split: if_splits)

lemma update_result:
  assumes "update st now i request = Inr (Some d', st')"
  shows "\<exists>d. findById st i = Some d \<and>
           d' = (assign d (applySettersUpdate request)) \<lparr> updatedAt := now \<rparr> \<and>
           st' = map (\<lambda>e. if deck_id e = deck_id d then d' else e) st"
  using assms
  by (auto simp: update_def findById_def Let_def split: if_splits option.splits)

lemma updateDeck_is_update:
  assumes "updateDeck st now i request = Inr r"
  shows "update st now i request = Inr r"
  using assms
  by (auto simp: updateDeck_def split: option.splits sum.splits)

lemma unique_name_holder:
  assumes "uniqueNames st" "d \<in> set st" "e \<in> set st" "name e = name d"
  shows "e = d"
  using assms by (auto simp: uniqueNames_def distinct_map dest: inj_onD)

text \<open>A name that is taken and has no syntax character is refused with the conflict error.\<close>

lemma createDeck_taken_plain_name:
  assumes "list_all plainChar (name request)" and "nameTaken st (name request)"
  shows "createDeck st now newId request = Inl (AlreadyExists (name request))"
proof -
  from assms(2) obtain d where "d \<in> set st" "equalIgnoringCase (name d) (name request)"
    by (auto simp: nameTaken_def list_ex_iff)
  then have "find (\<lambda>d. equalIgnoringCase (name d) (name request)) st \<noteq> None"
    by (auto simp: find_None_iff)
  then show ?thesis
    by (auto simp: createDeck_def findByName_plain [OF assms(1)])
qed

text \<open>A name that is not taken and has no syntax character goes on to be built and saved.\<close>

lemma createDeck_free_plain_name:
  assumes "list_all plainChar (name request)" and "\<not> nameTaken st (name request)"
  shows "createDeck st now newId request =
           (case DeckEntity now request of
              Inl e \<Rightarrow> Inl e
            | Inr deckEntity \<Rightarrow> create st now newId deckEntity)"
proof -
  from assms(2) have "find (\<lambda>d. equalIgnoringCase (name d) (name request)) st = None"
    by (auto simp: nameTaken_def list_ex_iff find_None_iff)
  then show ?thesis
    by (simp add: createDeck_def findByName_plain [OF assms(1)])
qed

text \<open>
  An update to a new name without syntax characters: refused when any record, the
  target included, has the name up to case; passed on to the repository otherwise.
\<close>

lemma updateDeck_changed_plain_name:
  assumes "findById st i = Some existingDeck" and "upd_name request = Some n"
    and "n \<noteq> []" and "n \<noteq> name existingDeck" and "list_all plainChar n"
  shows "updateDeck st now i request =
           (if nameTaken st n then Inl (AlreadyExists n) else update st now i request)"
proof -
  have changed: "changedName request existingDeck = Some n"
    using assms(2,3,4) by (simp add: changedName_def)
  have "nameTaken st n \<longleftrightarrow> find (\<lambda>d. equalIgnoringCase (name d) n) st \<noteq> None"
    by (auto simp: nameTaken_def list_ex_iff find_None_iff)
  then show ?thesis
    by (auto simp: updateDeck_def assms(1) changed findByName_plain [OF assms(5)]
        split: option.splits)
qed

text \<open>A deck that is created is appended under the title-cased, trimmed name.\<close>

lemma createDeck_stores_title_case:
  assumes "createDeck st now newId request = Inr (d, st')"
  shows "name d = titleCase (trim (name request)) \<and> deck_id d = newId \<and>
         createdAt d = now \<and> updatedAt d = now \<and> st' = st @ [d]"
  using assms
  by (auto simp: createDeck_def create_def DeckEntity_def applySetters_def Let_def
      split: sum.splits option.splits if_splits)

text \<open>The entity's own update keeps the identifier and the creation time as well.\<close>

lemma entity_update_timestamps:
  "DeckEntity_updateDeck now d u = Inr d' \<Longrightarrow>
     deck_id d' = deck_id d \<and> createdAt d' = createdAt d \<and> updatedAt d' = now"
  by (auto simp: DeckEntity_updateDeck_def Let_def assign_keeps split: option.splits)

lemma updateDeck_missing:
  "findById st i = None \<Longrightarrow> updateDeck st now i request = Inl (NotFound i)"
  by (simp add: updateDeck_def)

text \<open>
  The empty collection is one the store can hold, and creating and updating turn such a
  collection into another one; a created deck has a title-cased name.
\<close>

lemma storeInvariant_empty: "storeInvariant []"
  by (simp add: storeInvariant_def uniqueNames_def)

lemma createDeck_keeps_invariant:
  assumes "storeInvariant st" and "createDeck st now newId request = Inr (d, st')"
  shows "storeInvariant st' \<and> isTitleCased (name d)"
proof -
  from assms(2) obtain deck where run: "create st now newId deck = Inr (d, st')"
    by (auto simp: createDeck_def split: sum.splits option.splits)
  let ?n = "titleCase (trim (name deck))"
  from run have d: "name d = ?n" "deck_id d = newId" "st' = st @ [d]"
    and fresh: "\<not> list_ex (\<lambda>e. name e = ?n \<or> deck_id e = newId) st"
    by (auto simp: create_def applySetters_def Let_def split: if_splits)
  have "trim ?n = ?n" by (simp add: titleCase_trimmed trim_idem)
  with assms(1) d fresh show ?thesis
    by (auto simp: storeInvariant_def uniqueNames_def list_ex_iff titleCase_idem)
qed

lemma replace_untouched:
  "\<forall>e \<in> set st. deck_id e \<noteq> k \<Longrightarrow> map (\<lambda>e. if deck_id e = k then d' else e) st = st"
  by (induction st) auto

lemma replace_keeps_names_distinct:
  assumes "distinct (map deck_id st)" "distinct (map name st)"
    and "\<forall>e \<in> set st. deck_id e \<noteq> k \<longrightarrow> name e \<noteq> name d'"
  shows "distinct (map name (map (\<lambda>e. if deck_id e = k then d' else e) st))"
  using assms
proof (induction st)
  case Nil
  show ?case by simp
next
  case (Cons e st)
  show ?case
  proof (cases "deck_id e = k")
    case True
    with Cons.prems(1) have "k \<notin> deck_id ` set st" by simp
    then have others: "\<forall>x \<in> set st. deck_id x \<noteq> k" by blast
    with Cons.prems True show ?thesis
      by (auto simp: replace_untouched)
  next
    case False
    let ?g = "\<lambda>e. if deck_id e = k then d' else e"
    have "name e \<noteq> name (?g x)" if "x \<in> set st" for x
    proof (cases "deck_id x = k")
      case True
      with Cons.prems(3) False show ?thesis by simp
    next
      case other: False
      from Cons.prems(2) have "name e \<notin> name ` set st" by simp
      with that have "name x \<noteq> name e" by (metis imageI)
      with other show ?thesis by simp
    qed
    then have "\<forall>x \<in> set st. name e \<noteq> name (?g x)" by blast
    then have "name e \<notin> set (map name (map ?g st))" by (simp add: image_iff)
    moreover have "distinct (map name (map ?g st))"
      using Cons.IH Cons.prems by simp
    ultimately show ?thesis using False by simp
  qed
qed

lemma updateDeck_keeps_invariant:
  assumes "storeInvariant st" and "updateDeck st now i request = Inr (x, st')"
  shows "storeInvariant st'"
proof -
  from assms(2) have run: "update st now i request = Inr (x, st')"
    by (rule updateDeck_is_update)
  show ?thesis
  proof (cases x)
    case None
    with run have "st' = st"
      by (auto simp: update_def Let_def split: if_splits option.splits)
    with assms(1) show ?thesis by simp
  next
    case (Some d')
    with run obtain d where d: "findById st i = Some d"
      and d': "d' = (assign d (applySettersUpdate request)) \<lparr> updatedAt := now \<rparr>"
      and st': "st' = map (\<lambda>e. if deck_id e = deck_id d then d' else e) st"
      using update_result by blast
    from d have mem: "d \<in> set st" using findById_Some by blast
    from run Some d d' have free: "\<not> list_ex (\<lambda>e. deck_id e \<noteq> deck_id d \<and> name e = name d') st"
      by (auto simp: update_def findById_def Let_def split: if_splits option.splits)
    have ids: "map deck_id st' = map deck_id st"
      by (simp add: st' d' assign_keeps comp_def if_distrib cong: if_cong)
    have names: "distinct (map name st')"
      unfolding st'
      using assms(1) free
      by (intro replace_keeps_names_distinct) (auto simp: storeInvariant_def uniqueNames_def list_ex_iff)
    have "trim (name d') = name d'"
      using assms(1) mem
      by (auto simp: d' assign_def applySettersUpdate_def trim_idem storeInvariant_def
          uniqueNames_def list_all_iff split: option.splits)
    then have "list_all (\<lambda>e. trim (name e) = name e) st'"
      using assms(1) by (auto simp: st' storeInvariant_def uniqueNames_def list_all_iff)
    with ids names assms(1) show ?thesis
      by (simp add: storeInvariant_def uniqueNames_def)
  qed
qed

section \<open>Sorting and the page count\<close>

lemma set_insertBy: "set (insertBy le x xs) = insert x (set xs)"
  by (induction xs) auto

lemma set_sortDocs: "set (sortDocs f dir ds) = set ds"
  by (induction ds) (simp_all add: sortDocs_def set_insertBy)

lemma length_insertBy: "length (insertBy le x xs) = Suc (length xs)"
  by (induction xs) auto

lemma length_sortDocs: "length (sortDocs f dir ds) = length ds"
  by (induction ds) (simp_all add: sortDocs_def length_insertBy)

text \<open>Sorting returns the documents it was given, each as often as it occurs.\<close>

lemma mset_insertBy: "mset (insertBy le x xs) = add_mset x (mset xs)"
  by (induction xs) auto

lemma mset_sortDocs: "mset (sortDocs f dir ds) = mset ds"
  by (induction ds) (simp_all add: sortDocs_def mset_insertBy)

lemma sorted_insertBy:
  assumes total: "\<And>a b. le a b \<or> le b a"
    and trans: "\<And>a b c. le a b \<Longrightarrow> le b c \<Longrightarrow> le a c"
    and "sorted_wrt le xs"
  shows "sorted_wrt le (insertBy le x xs)"
  using assms(3)
proof (induction xs)
  case Nil
  show ?case by simp
next
  case (Cons y ys)
  show ?case
  proof (cases "le x y")
    case True
    with Cons.prems show ?thesis by (auto intro: trans)
  next
    case False
    then have "le y x" using total by blast
    with Cons False show ?thesis by (auto simp: set_insertBy)
  qed
qed

lemma sorted_by_creation:
  "sorted_wrt (\<lambda>a b. createdAt b \<le> createdAt a) (sortDocs ''createdAt'' (- 1) ds)"
proof -
  have le: "docLe ''createdAt'' (- 1) = (\<lambda>a b. createdAt b \<le> createdAt a)"
    by (intro ext) (simp add: docLe_def sortKeyOf_def)
  show ?thesis
    unfolding sortDocs_def le
  proof (induction ds)
    case Nil
    show ?case by simp
  next
    case (Cons d ds)
    show ?case
      using sorted_insertBy [of "\<lambda>a b. createdAt b \<le> createdAt a", OF _ _ Cons.IH]
      by fastforce
  qed
qed

lemma ceil_div_int:
  assumes "0 < (l::int)"
  shows "- (- t div l) = (t + l - 1) div l"
proof -
  have r: "0 \<le> t mod l" "t mod l < l" using assms by simp_all
  have eq: "t + l - 1 = (t div l) * l + (t mod l + l - 1)"
    by (simp add: algebra_simps)
  have "(t + l - 1) div l = ((t div l) * l + (t mod l + l - 1)) div l"
    by (simp only: eq [symmetric])
  also have "\<dots> = t div l + (t mod l + l - 1) div l"
    using assms by simp
  finally have split: "(t + l - 1) div l = t div l + (t mod l + l - 1) div l" .
  show ?thesis
  proof (cases "t mod l = 0")
    case True
    then have "(t mod l + l - 1) div l = 0" using assms by (simp add: div_pos_pos_trivial)
    with True split assms show ?thesis by (simp add: zdiv_zminus1_eq_if)
  next
    case False
    have "t mod l + l - 1 = 1 * l + (t mod l - 1)" by simp
    then have "(t mod l + l - 1) div l = 1 + (t mod l - 1) div l"
      using assms by (metis div_mult_self4 less_irrefl mult.commute)
    also have "(t mod l - 1) div l = 0"
      using r False by (simp add: div_pos_pos_trivial)
    finally have "(t mod l + l - 1) div l = 1" by simp
    with False split assms show ?thesis by (simp add: zdiv_zminus1_eq_if)
  qed
qed

text \<open>The page count in integer arithmetic.\<close>

lemma totalPages_div:
  "0 < l \<Longrightarrow> \<lceil>(of_int t / of_int l :: rat)\<rceil> = (t + l - 1) div l"
  using ceil_div_int [of l t] by (simp add: ceiling_divide_eq_div)

lemma beyond_last_page:
  assumes "0 < l" "0 \<le> t" "\<lceil>(of_int t / of_int l :: rat)\<rceil> < p"
  shows "t \<le> (p - 1) * l"
proof -
  have "(of_int t / of_int l :: rat) \<le> of_int \<lceil>(of_int t / of_int l :: rat)\<rceil>"
    by (rule le_of_int_ceiling)
  also have "\<dots> \<le> of_int (p - 1)"
    using assms(3) by simp
  finally have "(of_int t :: rat) \<le> of_int (p - 1) * of_int l"
    using assms(1) by (simp add: pos_divide_le_eq)
  then have "(of_int t :: rat) \<le> of_int ((p - 1) * l)" by simp
  then show ?thesis by (simp only: of_int_le_iff)
qed

text \<open>The page count is the least number of pages of \<open>l\<close> records that hold \<open>t\<close> records.\<close>

lemma pages_hold_total:
  assumes "0 < l"
  shows "t \<le> \<lceil>(of_int t / of_int l :: rat)\<rceil> * l \<and> (\<lceil>(of_int t / of_int l :: rat)\<rceil> - 1) * l < t"
proof -
  let ?x = "(of_int t / of_int l :: rat)"
  have l: "(0::rat) < of_int l" using assms by simp
  have "(of_int t :: rat) \<le> of_int \<lceil>?x\<rceil> * of_int l"
    by (subst pos_divide_le_eq [OF l, symmetric]) (rule le_of_int_ceiling)
  then have "(of_int t :: rat) \<le> of_int (\<lceil>?x\<rceil> * l)" by simp
  then have a: "t \<le> \<lceil>?x\<rceil> * l" by (simp only: of_int_le_iff)
  have "of_int \<lceil>?x\<rceil> - 1 < ?x" using ceiling_correct [of ?x] by simp
  then have below: "(of_int (\<lceil>?x\<rceil> - 1) :: rat) < ?x" by simp
  have "(of_int (\<lceil>?x\<rceil> - 1) :: rat) * of_int l < of_int t"
    by (subst pos_less_divide_eq [OF l, symmetric]) (rule below)
  then have "(of_int ((\<lceil>?x\<rceil> - 1) * l) :: rat) < of_int t" by simp
  then have b: "(\<lceil>?x\<rceil> - 1) * l < t" by (simp only: of_int_less_iff)
  from a b show ?thesis by simp
qed

lemma findAll_result:
  assumes "buildFilterQuery filters = Compiled query"
    and "1 \<le> effectivePage pagination" and "1 \<le> effectiveLimit pagination"
    and "exactNumbers pagination"
  shows "\<exists>r. findAll st filters pagination = Inr r \<and>
     total r = int (length (filter (matchesQuery query) st)) \<and>
     res_page r = effectivePage pagination \<and> res_limit r = effectiveLimit pagination \<and>
     totalPages r = \<lceil>(of_int (total r) / of_int (effectiveLimit pagination) :: rat)\<rceil> \<and>
     data r = take (nat (effectiveLimit pagination))
                (drop (nat ((effectivePage pagination - 1) * effectiveLimit pagination))
                   (sortDocs (sortFieldOf pagination) (sortOrderOf pagination)
                      (filter (matchesQuery query) st))) \<and>
     (totalPages r < effectivePage pagination \<longrightarrow> data r = [])"
proof -
  let ?p = "effectivePage pagination" and ?l = "effectiveLimit pagination"
  let ?m = "filter (matchesQuery query) st"
  let ?r = "\<lparr> data = take (nat ?l) (drop (nat ((?p - 1) * ?l))
                      (sortDocs (sortFieldOf pagination) (sortOrderOf pagination) ?m)),
               total = int (length ?m), res_page = ?p, res_limit = ?l,
               totalPages = \<lceil>(of_int (int (length ?m)) / of_int ?l :: rat)\<rceil> \<rparr>"
  have "0 \<le> (?p - 1) * ?l" using assms(2,3) by simp
  then have inside: "((?p - 1) * ?l < 0 \<or> ?l < 0 \<or> maxSafeInteger < (?p - 1) * ?l \<or>
                 maxSafeInteger < ?l) = False"
    using assms(3,4) by (auto simp: exactNumbers_def)
  have run: "findAll st filters pagination = Inr ?r"
    by (simp only: findAll_def Let_def assms(1) compiled.case inside if_False)
  have "data ?r = []" if "totalPages ?r < ?p"
  proof -
    from that have "int (length ?m) \<le> (?p - 1) * ?l"
      using beyond_last_page [of ?l "int (length ?m)" ?p] assms(3) by simp
    then have "length (sortDocs (sortFieldOf pagination) (sortOrderOf pagination) ?m)
                 \<le> nat ((?p - 1) * ?l)"
      by (simp add: length_sortDocs)
    then show ?thesis by simp
  qed
  with run show ?thesis by (intro exI [of _ ?r]) simp
qed

lemma findAll_in_range:
  assumes "findAll st filters pagination = Inr r"
    and "buildFilterQuery filters = Compiled query"
    and "1 \<le> effectivePage pagination" and "1 \<le> effectiveLimit pagination"
  shows "exactNumbers pagination"
  using assms(1,2)
  by (auto simp: findAll_def Let_def exactNumbers_def split: if_splits)

lemma paginationOf_clamps:
  "page (paginationOf q) = Some (clampedPage (parseInt (qs_page q)))"
  "limit (paginationOf q) = Some (clampedLimit (parseInt (qs_limit q)))"
  by (auto simp: paginationOf_def clampedPage_def clampedLimit_def orDefault_def Let_def
      split: option.splits)

lemma clamped_ranges:
  "1 \<le> clampedPage v" "1 \<le> clampedLimit v" "clampedLimit v \<le> 100"
  by (auto simp: clampedPage_def clampedLimit_def split: option.splits)

lemma effective_of_clamped:
  "effectivePage (Some (paginationOf q)) = clampedPage (parseInt (qs_page q))"
  "effectiveLimit (Some (paginationOf q)) = clampedLimit (parseInt (qs_limit q))"
  using clamped_ranges(1) [of "parseInt (qs_page q)"] clamped_ranges(2) [of "parseInt (qs_limit q)"]
  by (simp_all add: effectivePage_def effectiveLimit_def paginationOf_clamps orDefault_def)

lemma unspecified_sort:
  assumes "qs_sortBy q = None" "qs_sortOrder q = None"
  shows "sortFieldOf (Some (paginationOf q)) = ''createdAt''"
    and "sortOrderOf (Some (paginationOf q)) = - 1"
  using assms
  by (simp_all add: sortFieldOf_def sortOrderOf_def paginationOf_def truthy_def Let_def)

lemma map_response: "map mapDeckToResponse ds = ds"
  by (induction ds) (simp_all add: mapDeckToResponse_def)

lemma query_of_literal_filters:
  assumes "literalFilters f"
  shows "\<exists>query. buildFilterQuery (Some f) = Compiled query \<and> matchesQuery query = filterHolds f"
proof (cases "truthy (flt_storageLocation f)")
  case None
  then have loc: "flt_storageLocation f = None \<or> flt_storageLocation f = Some []"
    by (auto simp: truthy_def split: option.splits if_splits)
  show ?thesis
    using assms None loc
    by (auto simp: buildFilterQuery_def literalFilters_def matchesQuery_def filterHolds_def
        truthy_def onPresent_def containsIgnoringCase_def fun_eq_iff split: option.splits)
next
  case (Some l)
  then have loc: "flt_storageLocation f = Some l" "l \<noteq> []"
    by (auto simp: truthy_def split: option.splits if_splits)
  with assms have "list_all plainChar l"
    by (simp add: literalFilters_def onPresent_def)
  then have "compile l = Compiled (map (\<lambda>c. Atom (Lit c) One) l)"
    by (rule compile_plain)
  then show ?thesis
    using assms Some loc
    by (auto simp: buildFilterQuery_def literalFilters_def matchesQuery_def filterHolds_def
        truthy_def onPresent_def test_plain fun_eq_iff split: option.splits)
qed

section \<open>Validation\<close>

text \<open>A value raises no error exactly when the schema accepts it.\<close>

lemma stringValueErrors_none:
  "stringValueErrors isUri r v = [] \<longleftrightarrow> stringAccepted isUri r v"
  by (cases v)
    (auto simp: stringValueErrors_def stringErrors_def stringAccepted_def Let_def
      split: option.splits)

lemma itemErrors_none:
  "itemErrors isUri r i xs = [] \<longleftrightarrow> list_all (stringAccepted isUri r) xs"
  by (induction xs arbitrary: i) (auto simp: stringValueErrors_none)

lemma ruleErrors_none: "ruleErrors isUri r v = [] \<longleftrightarrow> accepted isUri r v"
  by (induction isUri r v rule: ruleErrors.induct)
    (auto simp: stringValueErrors_none itemErrors_none)

lemma keyErrors_none:
  "keyErrors isUri ks (map_of b (key ks)) = [] \<longleftrightarrow> fieldAccepted isUri ks b"
  by (auto simp: keyErrors_def fieldAccepted_def ruleErrors_none split: option.splits)

lemma joinDot_under: "joinDot (k # p) = k \<or> prefix (k @ ''.'') (joinDot (k # p))"
  by (cases p) auto

lemma length_violating:
  "length (filter (\<lambda>ks. \<not> fieldAccepted isUri ks b) kss)
     \<le> length (concat (map (\<lambda>ks. keyDetails isUri ks b) kss))"
proof (induction kss)
  case Nil
  show ?case by simp
next
  case (Cons ks kss)
  have "\<not> fieldAccepted isUri ks b \<Longrightarrow> 1 \<le> length (keyDetails isUri ks b)"
    using keyErrors_none [of isUri ks b]
    by (cases "keyErrors isUri ks (map_of b (key ks))") (simp_all add: keyDetails_def)
  with Cons show ?case by fastforce
qed

lemma respond_reports:
  assumes "k \<in> set (violatingFields isUri sch b)"
  shows "\<exists>fms. respond isUri sch b = Status400 fms \<and> reportsField fms k \<and>
           length (violatingFields isUri sch b) \<le> length fms"
proof -
  let ?found = "joiValidate False isUri sch b"
  let ?fms = "map (\<lambda>detail. \<lparr> field = joinDot (detail_path detail),
                                message = detail_message detail \<rparr>) ?found"
  from assms obtain ks where ks: "ks \<in> set (keys sch)" "key ks = k"
    and bad: "keyErrors isUri ks (map_of b (key ks)) \<noteq> []"
    by (auto simp: violatingFields_def keyErrors_none)
  from bad obtain p t rest where e: "keyErrors isUri ks (map_of b (key ks)) = (p, t) # rest"
    by (cases "keyErrors isUri ks (map_of b (key ks))") auto
  let ?d = "\<lparr> detail_path = k # p, detail_type = t,
               detail_message = messageFor (messages ks) t \<rparr>"
  have "?d \<in> set (keyDetails isUri ks b)"
    unfolding keyDetails_def using e ks(2) by force
  with ks(1) have d: "?d \<in> set ?found"
    by (auto simp: joiValidate_def)
  then have nonempty: "?found \<noteq> []" by auto
  then have run: "respond isUri sch b = Status400 ?fms"
    by (cases ?found) (simp_all add: respond_def)
  from d have "\<lparr> field = joinDot (k # p), message = messageFor (messages ks) t \<rparr> \<in> set ?fms"
    by force
  then have rep: "reportsField ?fms k"
    using joinDot_under [of k p] unfolding reportsField_def list_ex_iff
    by (metis fieldMessage.select_convs(1))
  have "length (violatingFields isUri sch b) \<le> length ?fms"
    using length_violating [of isUri b "keys sch"]
    by (simp add: violatingFields_def joiValidate_def)
  with run rep show ?thesis by blast
qed

text \<open>The fields of the details are the violating places.\<close>

lemma item_paths:
  "(\<lambda>(p, t). joinDot (k # p)) ` set (itemErrors isUri r i xs)
     = set (map (\<lambda>(j, x). k @ ''.'' @ showNat j)
         (filter (\<lambda>(j, x). \<not> stringAccepted isUri r x) (enumerate i xs)))"
proof (induction xs arbitrary: i)
  case Nil
  show ?case by simp
next
  case (Cons x xs)
  have head: "(\<lambda>(p, t). joinDot (k # p)) ` set (map (\<lambda>t. ([showNat i], t)) (stringValueErrors isUri r x))
      = (if stringAccepted isUri r x then {} else {k @ ''.'' @ showNat i})"
  proof (cases "stringValueErrors isUri r x")
    case Nil
    then show ?thesis using stringValueErrors_none [of isUri r x] by simp
  next
    case (Cons t ts)
    then have "\<not> stringAccepted isUri r x"
      using stringValueErrors_none [of isUri r x] by simp
    then show ?thesis by (auto simp: Cons image_image)
  qed
  show ?case
    by (simp only: itemErrors.simps set_append image_Un head Cons.IH [of "Suc i"]
          enumerate_simps filter.simps)
       simp
qed

lemma rule_paths:
  "(\<lambda>(p, t). joinDot (k # p)) ` set (ruleErrors isUri r v) = set (valuePlaces isUri r k v)"
proof (induction isUri r v rule: ruleErrors.induct)
  case (1 isUri r v)
  show ?case
    using stringValueErrors_none [of isUri r v]
    by (cases "stringValueErrors isUri r v") (auto simp: image_iff)
next
  case (5 isUri r a b xs)
  show ?case
    using item_paths [of k isUri r 0 xs]
    by (simp only: ruleErrors.simps valuePlaces.simps set_append image_Un itemPlaces_def)
      auto
qed auto

lemma key_fields:
  "set (map (\<lambda>d. joinDot (detail_path d)) (keyDetails isUri ks b)) = set (fieldPlaces isUri ks b)"
proof -
  have "set (map (\<lambda>d. joinDot (detail_path d)) (keyDetails isUri ks b))
      = (\<lambda>(p, t). joinDot (key ks # p)) ` set (keyErrors isUri ks (map_of b (key ks)))"
    by (auto simp: keyDetails_def image_iff split: prod.splits) force+
  also have "\<dots> = set (fieldPlaces isUri ks b)"
    using rule_paths [of "key ks" isUri "rule ks"]
    by (auto simp: keyErrors_def fieldPlaces_def split: option.splits)
  finally show ?thesis .
qed

lemma found_fields:
  "set (map (\<lambda>d. joinDot (detail_path d)) (joiValidate False isUri sch b))
     = set (violatingPlaces isUri sch b)"
proof -
  have "set (map (\<lambda>d. joinDot (detail_path d)) (concat (map (\<lambda>ks. keyDetails isUri ks b) kss)))
      = set (concat (map (\<lambda>ks. fieldPlaces isUri ks b) kss))" for kss
    using key_fields [of isUri _ b]
    by (induction kss) (simp_all del: set_map)
  then show ?thesis
    by (simp add: joiValidate_def violatingPlaces_def objectDetails_def del: set_map)
qed

text \<open>There are at least as many details as violating places.\<close>

lemma item_count:
  "length (filter (\<lambda>(j, x). \<not> stringAccepted isUri r x) (enumerate i xs))
     \<le> length (itemErrors isUri r i xs)"
proof (induction xs arbitrary: i)
  case Nil
  show ?case by simp
next
  case (Cons x xs)
  have "\<not> stringAccepted isUri r x \<Longrightarrow> 1 \<le> length (stringValueErrors isUri r x)"
    using stringValueErrors_none [of isUri r x]
    by (cases "stringValueErrors isUri r x") simp_all
  with Cons [of "Suc i"] show ?case by fastforce
qed

lemma rule_count: "length (valuePlaces isUri r k v) \<le> length (ruleErrors isUri r v)"
proof (induction isUri r v rule: ruleErrors.induct)
  case (1 isUri r v)
  show ?case
    using stringValueErrors_none [of isUri r v]
    by (cases "stringValueErrors isUri r v") simp_all
next
  case (5 isUri r a b xs)
  show ?case
    using item_count [of isUri r 0 xs] by (auto simp: itemPlaces_def)
qed auto

lemma key_count: "length (fieldPlaces isUri ks b) \<le> length (keyDetails isUri ks b)"
  using rule_count [of isUri "rule ks" "key ks"]
  by (auto simp: fieldPlaces_def keyDetails_def keyErrors_def split: option.splits)

lemma found_count:
  "length (violatingPlaces isUri sch b) \<le> length (joiValidate False isUri sch b)"
proof -
  have "length (concat (map (\<lambda>ks. fieldPlaces isUri ks b) kss))
      \<le> length (concat (map (\<lambda>ks. keyDetails isUri ks b) kss))" for kss
  proof (induction kss)
    case Nil
    show ?case by simp
  next
    case (Cons ks kss)
    with key_count [of isUri ks b] show ?case by simp
  qed
  then show ?thesis
    by (simp add: joiValidate_def violatingPlaces_def objectDetails_def)
qed

text \<open>The message of a detail is one its field has in the schema.\<close>

lemma string_types: "t \<in> set (stringValueErrors isUri r v) \<Longrightarrow> t \<in> set errorTypes"
  by (cases v)
    (auto simp: stringValueErrors_def stringErrors_def errorTypes_def Let_def
      split: option.splits if_splits)

lemma item_types: "(p, t) \<in> set (itemErrors isUri r i xs) \<Longrightarrow> t \<in> set errorTypes"
  by (induction xs arbitrary: i) (auto dest: string_types)

lemma rule_types: "(p, t) \<in> set (ruleErrors isUri r v) \<Longrightarrow> t \<in> set errorTypes"
proof (induction isUri r v rule: ruleErrors.induct)
  case (1 isUri r v)
  then show ?case by (auto dest: string_types)
next
  case (5 isUri r a b xs)
  then show ?case by (auto dest: item_types simp: errorTypes_def split: if_splits)
qed (auto simp: errorTypes_def split: if_splits)

lemma key_types: "(p, t) \<in> set (keyErrors isUri ks v) \<Longrightarrow> t \<in> set errorTypes"
  by (auto simp: keyErrors_def errorTypes_def dest: rule_types split: option.splits if_splits)

lemma messageFor_schema:
  "case messageFor ms t of
     Custom m \<Rightarrow> m \<in> snd ` set ms
   | JoiDefault t' \<Rightarrow> t' = t \<and> t \<notin> fst ` set ms"
proof (cases "map_of ms t")
  case None
  then have "t \<notin> fst ` set ms" by (simp add: map_of_eq_None_iff)
  with None show ?thesis by (simp add: messageFor_def)
next
  case (Some m)
  then have "(t, m) \<in> set ms" by (rule map_of_SomeD)
  then have "m \<in> snd ` set ms" by force
  with Some show ?thesis by (simp add: messageFor_def)
qed

lemma key_messages:
  assumes "ks \<in> set (keys sch)" "d \<in> set (keyDetails isUri ks b)"
  shows "schemaMessage sch \<lparr> field = joinDot (detail_path d), message = detail_message d \<rparr>"
proof -
  from assms(2) obtain p t where pt: "(p, t) \<in> set (keyErrors isUri ks (map_of b (key ks)))"
    and d: "detail_path d = key ks # p" "detail_message d = messageFor (messages ks) t"
    by (auto simp: keyDetails_def)
  from pt have t: "t \<in> set errorTypes" by (rule key_types)
  have "case detail_message d of
          Custom m \<Rightarrow> m \<in> snd ` set (messages ks)
        | JoiDefault t \<Rightarrow> t \<in> set errorTypes \<and> t \<notin> fst ` set (messages ks)"
    using messageFor_schema [of "messages ks" t] t
    by (cases "messageFor (messages ks) t") (simp_all add: d)
  moreover have "joinDot (detail_path d) = key ks \<or> prefix (key ks @ ''.'') (joinDot (detail_path d))"
    unfolding d by (rule joinDot_under)
  ultimately show ?thesis
    using assms(1) unfolding schemaMessage_def list_ex_iff by auto
qed

lemma found_messages:
  assumes "d \<in> set (joiValidate False isUri sch b)"
  shows "schemaMessage sch \<lparr> field = joinDot (detail_path d), message = detail_message d \<rparr>"
proof -
  from assms consider ks where "ks \<in> set (keys sch)" "d \<in> set (keyDetails isUri ks b)"
    | "d \<in> set (objectDetails sch b)"
    by (auto simp: joiValidate_def)
  then show ?thesis
  proof cases
    case 1
    then show ?thesis by (rule key_messages)
  next
    case 2
    then show ?thesis
      by (auto simp: objectDetails_def schemaMessage_def split: if_splits)
  qed
qed

lemma respond_places:
  "(violatingPlaces isUri sch b = [] \<longrightarrow> respond isUri sch b = Next (joiValue sch b)) \<and>
   (violatingPlaces isUri sch b \<noteq> [] \<longrightarrow>
      (\<exists>fms. respond isUri sch b = Status400 fms \<and>
         set (map field fms) = set (violatingPlaces isUri sch b) \<and>
         length (violatingPlaces isUri sch b) \<le> length fms \<and>
         list_all (schemaMessage sch) fms))"
proof -
  let ?found = "joiValidate False isUri sch b"
  let ?fms = "map (\<lambda>detail. \<lparr> field = joinDot (detail_path detail),
                                message = detail_message detail \<rparr>) ?found"
  have fields: "set (map field ?fms) = set (violatingPlaces isUri sch b)"
    using found_fields [of isUri sch b] by (simp add: comp_def del: set_map)
  have count: "length (violatingPlaces isUri sch b) \<le> length ?fms"
    using found_count [of isUri sch b] by simp
  have msgs: "list_all (schemaMessage sch) ?fms"
    unfolding list_all_iff using found_messages [of _ isUri sch b] by auto
  have empty: "?found = [] \<longleftrightarrow> violatingPlaces isUri sch b = []"
    using found_fields [of isUri sch b] by (metis map_is_Nil_conv set_empty)
  show ?thesis
  proof (cases ?found)
    case Nil
    with empty show ?thesis by (simp add: respond_def)
  next
    case (Cons d ds)
    then have run: "respond isUri sch b = Status400 ?fms"
      by (simp add: respond_def)
    from Cons empty have "violatingPlaces isUri sch b \<noteq> []"
      by simp
    moreover from run fields count msgs
    have "\<exists>fms. respond isUri sch b = Status400 fms \<and>
         set (map field fms) = set (violatingPlaces isUri sch b) \<and>
         length (violatingPlaces isUri sch b) \<le> length fms \<and>
         list_all (schemaMessage sch) fms"
      by (intro exI [of _ ?fms] conjI)
    ultimately show ?thesis by (simp only: simp_thms)
  qed
qed

section \<open>The claims\<close>

text \<open>
  Claim C1: a create request whose name already exists, in any case variant, fails with
  the conflict error and adds no record; a request with a unique name is built,
  validated and stored.

  The code reads the name as a pattern. First run: a deck is created as \<open>X\<close> and renamed
  to \<open>a+b\<close>; a request for \<open>A+B\<close> then finds no match for \<^verbatim>\<open>/^A+B$/i\<close>, the name is
  stored as \<open>A+b\<close>, and two records carry the same name up to case. Second run: with a
  deck \<open>Ab\<close> stored, a request for the unused name \<open>A.\<close> is refused as a conflict,
  since \<^verbatim>\<open>/^A.$/i\<close> matches \<open>Ab\<close>.
\<close>

theorem createDeck_reads_name_as_pattern:
  "createDeck [] 1 id1 (exampleRequest ''x'') = Inr (exampleDeck ''X'' id1 1, [exampleDeck ''X'' id1 1]) \<and>
   updateDeck [exampleDeck ''X'' id1 1] 2 id1 (rename ''a+b'') =
     Inr (Some ((exampleDeck ''a+b'' id1 1) \<lparr> updatedAt := 2 \<rparr>),
          [(exampleDeck ''a+b'' id1 1) \<lparr> updatedAt := 2 \<rparr>]) \<and>
   nameTaken [(exampleDeck ''a+b'' id1 1) \<lparr> updatedAt := 2 \<rparr>] ''A+B'' \<and>
   createDeck [(exampleDeck ''a+b'' id1 1) \<lparr> updatedAt := 2 \<rparr>] 3 id2 (exampleRequest ''A+B'') =
     Inr (exampleDeck ''A+b'' id2 3,
          [(exampleDeck ''a+b'' id1 1) \<lparr> updatedAt := 2 \<rparr>, exampleDeck ''A+b'' id2 3]) \<and>
   createDeck [] 1 id1 (exampleRequest ''ab'') =
     Inr (exampleDeck ''Ab'' id1 1, [exampleDeck ''Ab'' id1 1]) \<and>
   \<not> nameTaken [exampleDeck ''Ab'' id1 1] ''A.'' \<and>
   createDeck [exampleDeck ''Ab'' id1 1] 2 id2 (exampleRequest ''A.'') = Inl (AlreadyExists ''A.'')"
  by code_simp

text \<open>
  Claim C2: an update that changes the name checks it against the other records, those
  that are not the target, and fails with the conflict error on a collision; otherwise
  it merges and stores; a missing target gives the not-found error.

  The lookup does not leave the target out: renaming the only deck, \<open>Lightning Aggro\<close>,
  to \<open>LIGHTNING AGGRO\<close> is refused as a conflict with itself.
\<close>

theorem updateDeck_collides_with_itself:
  "findById [exampleDeck ''Lightning Aggro'' id1 1] id1 = Some (exampleDeck ''Lightning Aggro'' id1 1) \<and>
   \<not> nameTakenByOther [exampleDeck ''Lightning Aggro'' id1 1] id1 ''LIGHTNING AGGRO'' \<and>
   updateDeck [exampleDeck ''Lightning Aggro'' id1 1] 2 id1 (rename ''LIGHTNING AGGRO'') =
     Inl (AlreadyExists ''LIGHTNING AGGRO'')"
  by code_simp

text \<open>
  Claim C3: the stored name is title-cased at all times: \<open>lightning aggro\<close> is stored
  as \<open>Lightning Aggro\<close>, a second deck \<open>LIGHTNING AGGRO\<close> is a conflict, and the name
  stays title-cased after every mutation, a partial update with a new name included.

  Creating does all of that; updating stores the name as the request gives it.
\<close>

theorem update_stores_name_as_given:
  "createDeck [] 1 id1 (exampleRequest ''lightning aggro'') =
     Inr (exampleDeck ''Lightning Aggro'' id1 1, [exampleDeck ''Lightning Aggro'' id1 1]) \<and>
   isTitleCased ''Lightning Aggro'' \<and>
   createDeck [exampleDeck ''Lightning Aggro'' id1 1] 2 id2 (exampleRequest ''LIGHTNING AGGRO'') =
     Inl (AlreadyExists ''LIGHTNING AGGRO'') \<and>
   updateDeck [exampleDeck ''Lightning Aggro'' id1 1] 3 id1 (rename ''goblin rush'') =
     Inr (Some ((exampleDeck ''goblin rush'' id1 1) \<lparr> updatedAt := 3 \<rparr>),
          [(exampleDeck ''goblin rush'' id1 1) \<lparr> updatedAt := 3 \<rparr>]) \<and>
   \<not> isTitleCased ''goblin rush''"
  by code_simp

text \<open>
  Claim C4, as amended: take a filter set whose enumeration filters are not empty
  strings and whose storage-location text has no character of the pattern syntax, and
  a page and limit of at least 1 that JavaScript holds exactly. Then \<^verbatim>\<open>findAll\<close> returns; its total counts exactly
  the records that match every supplied filter (the storage location by
  case-insensitive substring, the others exactly, an omitted filter not at all); every
  record it returns is one of them; and it returns all of them when they fit on the
  first page.
\<close>

theorem findAll_selects_matching:
  assumes "literalFilters f"
    and "1 \<le> effectivePage pagination" and "1 \<le> effectiveLimit pagination"
    and "exactNumbers pagination"
  shows "\<exists>r. findAll st (Some f) pagination = Inr r \<and>
     total r = int (length (filter (filterHolds f) st)) \<and>
     set (data r) \<subseteq> {d \<in> set st. filterHolds f d} \<and>
     (effectivePage pagination = 1 \<and> total r \<le> effectiveLimit pagination \<longrightarrow>
        set (data r) = {d \<in> set st. filterHolds f d})"
proof -
  from assms(1) obtain query where query: "buildFilterQuery (Some f) = Compiled query"
    and same: "matchesQuery query = filterHolds f"
    using query_of_literal_filters by blast
  from findAll_result [OF query assms(2,3,4), of st] obtain r
    where r: "findAll st (Some f) pagination = Inr r"
      and total: "total r = int (length (filter (filterHolds f) st))"
      and data: "data r = take (nat (effectiveLimit pagination))
                (drop (nat ((effectivePage pagination - 1) * effectiveLimit pagination))
                   (sortDocs (sortFieldOf pagination) (sortOrderOf pagination)
                      (filter (filterHolds f) st)))"
    unfolding same by blast
  let ?sorted = "sortDocs (sortFieldOf pagination) (sortOrderOf pagination) (filter (filterHolds f) st)"
  have sub: "set (data r) \<subseteq> {d \<in> set st. filterHolds f d}"
  proof
    fix d assume "d \<in> set (data r)"
    then have "d \<in> set ?sorted"
      unfolding data by (meson in_set_takeD in_set_dropD)
    then show "d \<in> {d \<in> set st. filterHolds f d}"
      by (simp add: set_sortDocs)
  qed
  have all: "set (data r) = {d \<in> set st. filterHolds f d}"
    if "effectivePage pagination = 1" "total r \<le> effectiveLimit pagination"
  proof -
    from that(2) have "length ?sorted \<le> nat (effectiveLimit pagination)"
      by (simp add: total length_sortDocs)
    then have "data r = ?sorted"
      by (simp add: data that(1))
    then show ?thesis by (auto simp: set_sortDocs)
  qed
  from r total sub all show ?thesis by blast
qed

text \<open>The amended claim at the filter \<open>box\<close>: of two decks, the one in "Red Box 1".\<close>

theorem findAll_selects_matching_witness:
  "literalFilters (locatedAt ''box'') \<and> 1 \<le> effectivePage None \<and> 1 \<le> effectiveLimit None \<and>
   exactNumbers None \<and>
   (\<exists>r. findAll [exampleDeck ''Ab'' id1 1, shelved] (Some (locatedAt ''box'')) None = Inr r \<and>
        total r = 1 \<and> set (data r) = {exampleDeck ''Ab'' id1 1})"
proof -
  let ?f = "locatedAt ''box''" and ?st = "[exampleDeck ''Ab'' id1 1, shelved]"
  have h1: "literalFilters ?f" by code_simp
  have h2: "1 \<le> effectivePage None" by code_simp
  have h3: "1 \<le> effectiveLimit None" by code_simp
  have h4: "exactNumbers None" by code_simp
  have sel: "filter (filterHolds ?f) ?st = [exampleDeck ''Ab'' id1 1]" by code_simp
  have page: "effectivePage None = 1" "effectiveLimit None = 10" by code_simp+
  from findAll_selects_matching [OF h1 h2 h3 h4, of ?st] obtain r
    where r: "findAll ?st (Some ?f) None = Inr r"
      and total: "total r = int (length (filter (filterHolds ?f) ?st))"
      and all: "effectivePage None = 1 \<and> total r \<le> effectiveLimit None \<longrightarrow>
                  set (data r) = {d \<in> set ?st. filterHolds ?f d}"
    by blast
  have t1: "total r = 1" by (simp only: total sel) simp
  with all page have "set (data r) = set (filter (filterHolds ?f) ?st)" by auto
  then have "set (data r) = {exampleDeck ''Ab'' id1 1}" by (simp only: sel) simp
  with h1 h2 h3 h4 r t1 show ?thesis by blast
qed

text \<open>
  Claim C4 as stated fails in three ways. With one record to a page, the older of two
  decks matches every supplied filter (none is supplied) and is not returned. The
  filter \<^verbatim>\<open>deckType\<close> given as the empty string is skipped, so a deck is returned whose
  type is not the empty string. The storage-location text \<open>.\<close> is read as a pattern
  and selects a deck stored at "Shelf", which does not contain a dot.
\<close>

theorem findAll_literal_reading_counterexample:
  "findAll [exampleDeck ''Ab'' id1 1, shelved] (Some noFilters) (Some (pageOf 1 1)) =
     Inr \<lparr> data = [shelved], total = 2, res_page = 1, res_limit = 1, totalPages = 2 \<rparr> \<and>
   filterHolds noFilters (exampleDeck ''Ab'' id1 1) \<and>
   exampleDeck ''Ab'' id1 1 \<noteq> shelved \<and>
   findAll [shelved] (Some (ofType [])) None =
     Inr \<lparr> data = [shelved], total = 1, res_page = 1, res_limit = 10, totalPages = 1 \<rparr> \<and>
   \<not> filterHolds (ofType []) shelved \<and>
   findAll [shelved] (Some (locatedAt ''.'')) None =
     Inr \<lparr> data = [shelved], total = 1, res_page = 1, res_limit = 10, totalPages = 1 \<rparr> \<and>
   \<not> filterHolds (locatedAt ''.'') shelved"
  by code_simp

text \<open>
  Claim C5: for the records that match and the effective limit \<open>L\<close>, \<^verbatim>\<open>findAll\<close>
  reports \<open>totalPages = ceil(total / L)\<close>, the least number of pages that hold the
  total, and skips \<open>(page - 1) * L\<close> records; a page beyond \<open>totalPages\<close> gives an
  empty list with the right total. Page and limit are at least 1, as the controller
  passes them, and are numbers JavaScript holds exactly.
\<close>

theorem findAll_pages:
  assumes "buildFilterQuery filters = Compiled query"
    and "1 \<le> effectivePage pagination" and "1 \<le> effectiveLimit pagination"
    and "exactNumbers pagination"
  shows "\<exists>r. findAll st filters pagination = Inr r \<and>
     total r = int (length (filter (matchesQuery query) st)) \<and>
     totalPages r = \<lceil>(of_int (total r) / of_int (effectiveLimit pagination) :: rat)\<rceil> \<and>
     total r \<le> totalPages r * effectiveLimit pagination \<and>
     (totalPages r - 1) * effectiveLimit pagination < total r \<and>
     data r = take (nat (effectiveLimit pagination))
                (drop (nat ((effectivePage pagination - 1) * effectiveLimit pagination))
                   (sortDocs (sortFieldOf pagination) (sortOrderOf pagination)
                      (filter (matchesQuery query) st))) \<and>
     (totalPages r < effectivePage pagination \<longrightarrow> data r = [])"
proof -
  from findAll_result [OF assms, of st] obtain r
    where r: "findAll st filters pagination = Inr r"
      "total r = int (length (filter (matchesQuery query) st))"
      "totalPages r = \<lceil>(of_int (total r) / of_int (effectiveLimit pagination) :: rat)\<rceil>"
      "data r = take (nat (effectiveLimit pagination))
                (drop (nat ((effectivePage pagination - 1) * effectiveLimit pagination))
                   (sortDocs (sortFieldOf pagination) (sortOrderOf pagination)
                      (filter (matchesQuery query) st)))"
      "totalPages r < effectivePage pagination \<longrightarrow> data r = []"
    by blast
  from assms(3) have "0 < effectiveLimit pagination" by simp
  from pages_hold_total [OF this, of "total r"] r(3)
  have "total r \<le> totalPages r * effectiveLimit pagination"
    "(totalPages r - 1) * effectiveLimit pagination < total r"
    by simp_all
  with r show ?thesis by blast
qed

text \<open>Three decks, two to a page: page 3 is empty, the total is 3 and there are 2 pages.\<close>

theorem findAll_pages_witness:
  "buildFilterQuery None =
     Compiled \<lparr> q_deckType = None, q_gameStage = None, q_tierRating = None,
                q_isComplete = None, q_hasCardSleeves = None, q_storageLocation = None \<rparr> \<and>
   1 \<le> effectivePage (Some (pageOf 3 2)) \<and> 1 \<le> effectiveLimit (Some (pageOf 3 2)) \<and>
   exactNumbers (Some (pageOf 3 2)) \<and>
   (\<exists>r. findAll threeDecks None (Some (pageOf 3 2)) = Inr r \<and>
        total r = 3 \<and> totalPages r = 2 \<and> data r = [])"
proof -
  let ?q = "\<lparr> q_deckType = None, q_gameStage = None, q_tierRating = None,
               q_isComplete = None, q_hasCardSleeves = None, q_storageLocation = None \<rparr>"
  let ?pg = "Some (pageOf 3 2)"
  have h1: "buildFilterQuery None = Compiled ?q" by code_simp
  have h2: "1 \<le> effectivePage ?pg" by code_simp
  have h3: "1 \<le> effectiveLimit ?pg" by code_simp
  have h4: "exactNumbers ?pg" by code_simp
  have n: "int (length (filter (matchesQuery ?q) threeDecks)) = 3" by code_simp
  have pl: "effectivePage ?pg = 3" "effectiveLimit ?pg = 2" by code_simp+
  from findAll_pages [OF h1 h2 h3 h4, of threeDecks] obtain r
    where r: "findAll threeDecks None ?pg = Inr r"
      and total: "total r = int (length (filter (matchesQuery ?q) threeDecks))"
      and pages: "totalPages r = \<lceil>(of_int (total r) / of_int (effectiveLimit ?pg) :: rat)\<rceil>"
      and beyond: "totalPages r < effectivePage ?pg \<longrightarrow> data r = []"
    by blast
  have t: "total r = 3" using total n by simp
  have "\<lceil>(of_int 3 / of_int 2 :: rat)\<rceil> = 2" using totalPages_div [of 2 3] by simp
  then have tp: "totalPages r = 2" by (simp add: pages t pl)
  with beyond pl have "data r = []" by simp
  with h1 h2 h3 h4 r t tp show ?thesis by blast
qed

text \<open>
  Claim C6: before the query runs, a limit outside [1,100] becomes the default 10 and a
  page below 1 becomes 1; with no sort given, the results are sorted by creation time,
  newest first. The handler answers 200 whenever the storage-location filter compiles
  and the page number is one JavaScript holds exactly. What it returns with no sort
  given is a page of the records the query matches, put newest first: there is an
  arrangement of all matching records, each as often as the store holds it, that is
  sorted by creation time descending; \<^verbatim>\<open>total\<close> counts it, and \<^verbatim>\<open>data\<close> is its window
  for the clamped page and limit.
\<close>

theorem getAllDecks_clamps:
  "page (paginationOf q) = Some (clampedPage (parseInt (qs_page q))) \<and>
   limit (paginationOf q) = Some (clampedLimit (parseInt (qs_limit q))) \<and>
   ((\<exists>query. buildFilterQuery (Some (filtersOf q)) = Compiled query) \<and>
    exactNumbers (Some (paginationOf q)) \<longrightarrow>
      (\<exists>r. getAllDecksHandler st q = Ok200 r)) \<and>
   (\<forall>r. getAllDecksHandler st q = Ok200 r \<longrightarrow>
      res_page r = clampedPage (parseInt (qs_page q)) \<and>
      res_limit r = clampedLimit (parseInt (qs_limit q)) \<and>
      (qs_sortBy q = None \<and> qs_sortOrder q = None \<longrightarrow>
         sorted_wrt (\<lambda>a b. createdAt b \<le> createdAt a) (data r) \<and>
         (\<exists>query newestFirst.
            buildFilterQuery (Some (filtersOf q)) = Compiled query \<and>
            mset newestFirst = mset (filter (matchesQuery query) st) \<and>
            sorted_wrt (\<lambda>a b. createdAt b \<le> createdAt a) newestFirst \<and>
            total r = int (length newestFirst) \<and>
            data r = take (nat (res_limit r))
                       (drop (nat ((res_page r - 1) * res_limit r)) newestFirst))))"
  (is "?c1 \<and> ?c2 \<and> ?c3 \<and> ?c4")
proof -
  let ?pg = "Some (paginationOf q)" and ?f = "Some (filtersOf q)"
  let ?newest = "\<lambda>a b. createdAt b \<le> createdAt a"
  have ranges: "1 \<le> effectivePage ?pg" "1 \<le> effectiveLimit ?pg"
    by (simp_all add: effective_of_clamped clamped_ranges)
  have ok: "\<exists>r. getAllDecksHandler st q = Ok200 r"
    if "buildFilterQuery ?f = Compiled query" and "exactNumbers ?pg" for query
    using findAll_result [OF that(1) ranges that(2), of st]
    by (auto simp: getAllDecksHandler_def getAllDecks_def)
  have c1: ?c1 and c2: ?c2
    by (rule paginationOf_clamps)+
  have c3: ?c3
    using ok by blast
  have c4: ?c4
  proof (intro allI impI conjI)
    fix r
    assume run: "getAllDecksHandler st q = Ok200 r"
    then obtain r0 where r0: "findAll st ?f ?pg = Inr r0"
      and r: "r = r0 \<lparr> data := map mapDeckToResponse (data r0) \<rparr>"
      by (auto simp: getAllDecksHandler_def getAllDecks_def split: sum.splits error.splits)
    from r0 obtain query where query: "buildFilterQuery ?f = Compiled query"
      by (auto simp: findAll_def split: compiled.splits)
    from r0 query ranges have "exactNumbers ?pg"
      by (rule findAll_in_range)
    from findAll_result [OF query ranges this, of st] r0
    have page: "res_page r0 = effectivePage ?pg" and limit: "res_limit r0 = effectiveLimit ?pg"
      and total: "total r0 = int (length (filter (matchesQuery query) st))"
      and data: "data r0 = take (nat (effectiveLimit ?pg))
                (drop (nat ((effectivePage ?pg - 1) * effectiveLimit ?pg))
                   (sortDocs (sortFieldOf ?pg) (sortOrderOf ?pg)
                      (filter (matchesQuery query) st)))"
      by auto
    have same: "data r = data r0" "res_page r = res_page r0" "res_limit r = res_limit r0"
      "total r = total r0"
      by (simp_all add: r map_response)
    show "res_page r = clampedPage (parseInt (qs_page q))"
      by (simp add: same page effective_of_clamped)
    show "res_limit r = clampedLimit (parseInt (qs_limit q))"
      by (simp add: same limit effective_of_clamped)
    assume h: "qs_sortBy q = None \<and> qs_sortOrder q = None"
    then have none: "qs_sortBy q = None" "qs_sortOrder q = None"
      by simp_all
    let ?all = "sortDocs ''createdAt'' (- 1) (filter (matchesQuery query) st)"
    have d: "data r = take (nat (res_limit r)) (drop (nat ((res_page r - 1) * res_limit r)) ?all)"
      unfolding same data page limit unspecified_sort [OF none] ..
    have s: "sorted_wrt ?newest ?all" by (rule sorted_by_creation)
    have m: "mset ?all = mset (filter (matchesQuery query) st)" by (rule mset_sortDocs)
    have t: "total r = int (length ?all)" by (simp add: same total length_sortDocs)
    show "sorted_wrt ?newest (data r)"
      unfolding d by (intro sorted_wrt_take sorted_wrt_drop s)
    from query m s t d
    show "\<exists>query newestFirst.
            buildFilterQuery ?f = Compiled query \<and>
            mset newestFirst = mset (filter (matchesQuery query) st) \<and>
            sorted_wrt ?newest newestFirst \<and>
            total r = int (length newestFirst) \<and>
            data r = take (nat (res_limit r))
                       (drop (nat ((res_page r - 1) * res_limit r)) newestFirst)"
      by (intro exI [of _ query] exI [of _ ?all] conjI)
  qed
  from c1 c2 c3 c4 show ?thesis
    by (intro conjI)
qed

text \<open>
  \<^verbatim>\<open>GET /decks?page=-3&limit=500\<close> on three decks created at 1, 2 and 3: page 1,
  limit 10, and the three decks in the order 3, 2, 1.
\<close>

theorem getAllDecks_clamps_witness:
  "parseInt (qs_page wildQuery) = Some (- 3) \<and> parseInt (qs_limit wildQuery) = Some 500 \<and>
   page (paginationOf wildQuery) = Some 1 \<and> limit (paginationOf wildQuery) = Some 10 \<and>
   qs_sortBy wildQuery = None \<and> qs_sortOrder wildQuery = None \<and>
   exactNumbers (Some (paginationOf wildQuery)) \<and>
   (\<exists>r. getAllDecksHandler threeDecks wildQuery = Ok200 r \<and> res_page r = 1 \<and> res_limit r = 10 \<and>
        total r = 3 \<and>
        data r = [exampleDeck ''Cd'' ''64b7f0c2a1d3e4f506172833'' 3, shelved,
                  exampleDeck ''Ab'' id1 1] \<and>
        sorted_wrt (\<lambda>a b. createdAt b \<le> createdAt a) (data r))"
proof -
  have p: "parseInt (qs_page wildQuery) = Some (- 3)" by code_simp
  have l: "parseInt (qs_limit wildQuery) = Some 500" by code_simp
  have s: "qs_sortBy wildQuery = None \<and> qs_sortOrder wildQuery = None" by code_simp
  have c: "clampedPage (Some (- 3)) = 1" "clampedLimit (Some 500) = 10" by code_simp+
  have m: "exactNumbers (Some (paginationOf wildQuery))" by code_simp
  have q: "\<exists>query. buildFilterQuery (Some (filtersOf wildQuery)) = Compiled query"
    by (intro exI [of _ "\<lparr> q_deckType = None, q_gameStage = None, q_tierRating = None,
               q_isComplete = None, q_hasCardSleeves = None, q_storageLocation = None \<rparr>"]) code_simp
  have e: "case getAllDecksHandler threeDecks wildQuery of
             Ok200 r \<Rightarrow> total r = 3 \<and>
               data r = [exampleDeck ''Cd'' ''64b7f0c2a1d3e4f506172833'' 3, shelved,
                         exampleDeck ''Ab'' id1 1]
           | _ \<Rightarrow> False"
    by code_simp
  note t = getAllDecks_clamps [of wildQuery threeDecks]
  note t1 = t [THEN conjunct1] and t2 = t [THEN conjunct2, THEN conjunct1]
    and t3 = t [THEN conjunct2, THEN conjunct2, THEN conjunct1]
    and t4 = t [THEN conjunct2, THEN conjunct2, THEN conjunct2]
  from t3 q m obtain r where r: "getAllDecksHandler threeDecks wildQuery = Ok200 r"
    by blast
  note after = t4 [THEN spec, THEN mp, OF r]
  note sorted = after [THEN conjunct2, THEN conjunct2, THEN mp, OF s, THEN conjunct1]
  have pl: "res_page r = 1" "res_limit r = 10"
    using after [THEN conjunct1] after [THEN conjunct2, THEN conjunct1]
    by (simp_all only: p l c)
  from e r have d: "total r = 3"
    "data r = [exampleDeck ''Cd'' ''64b7f0c2a1d3e4f506172833'' 3, shelved, exampleDeck ''Ab'' id1 1]"
    by simp_all
  have pc: "page (paginationOf wildQuery) = Some 1" "limit (paginationOf wildQuery) = Some 10"
    using t1 t2 by (simp_all only: p l c)
  from r pl d sorted have "\<exists>r. getAllDecksHandler threeDecks wildQuery = Ok200 r \<and>
        res_page r = 1 \<and> res_limit r = 10 \<and> total r = 3 \<and>
        data r = [exampleDeck ''Cd'' ''64b7f0c2a1d3e4f506172833'' 3, shelved,
                  exampleDeck ''Ab'' id1 1] \<and>
        sorted_wrt (\<lambda>a b. createdAt b \<le> createdAt a) (data r)"
    by (intro exI [of _ r] conjI)
  with p l pc s m show ?thesis
    by (intro conjI) (assumption | erule conjE)+
qed

text \<open>
  Claim C7, as amended: a successful update leaves the record's identifier and
  \<^verbatim>\<open>createdAt\<close> as they were and sets \<^verbatim>\<open>updatedAt\<close> to the clock reading of the update,
  which is strictly greater than the value before whenever that reading is later than
  it. The record is the one stored under the identifier afterwards.
\<close>

theorem updateDeck_timestamps:
  assumes "updateDeck st now i request = Inr (Some d', st')"
  shows "\<exists>d. findById st i = Some d \<and> findById st' i = Some d' \<and>
           deck_id d' = deck_id d \<and> createdAt d' = createdAt d \<and> updatedAt d' = now \<and>
           (updatedAt d < now \<longrightarrow> updatedAt d < updatedAt d')"
proof -
  from assms have "update st now i request = Inr (Some d', st')"
    by (rule updateDeck_is_update)
  then obtain d where d: "findById st i = Some d"
    and d': "d' = (assign d (applySettersUpdate request)) \<lparr> updatedAt := now \<rparr>"
    and st': "st' = map (\<lambda>e. if deck_id e = deck_id d then d' else e) st"
    using update_result by blast
  from d have valid: "isValidObjectId i"
    and found: "find (\<lambda>e. deck_id e = map toLowerCase i) st = Some d"
    and ident: "deck_id d = map toLowerCase i"
    using findById_Some by blast+
  have same: "deck_id d' = deck_id d" "createdAt d' = createdAt d" "updatedAt d' = now"
    by (simp_all add: d' assign_keeps)
  have "(\<lambda>x. deck_id (if deck_id x = deck_id d then d' else x) = map toLowerCase i)
          = (\<lambda>e. deck_id e = map toLowerCase i)"
    using same(1) ident by auto
  then have "findById st' i = Some d'"
    using valid found by (simp add: findById_def st' find_after_map)
  with d same show ?thesis by auto
qed

text \<open>A deck last written at 5 and updated at 9.\<close>

theorem updateDeck_timestamps_witness:
  "updateDeck [exampleDeck ''Ab'' id1 5] 9 id1 (describe ''Burn'') =
     Inr (Some ((exampleDeck ''Ab'' id1 5) \<lparr> description := ''Burn'', updatedAt := 9 \<rparr>),
          [(exampleDeck ''Ab'' id1 5) \<lparr> description := ''Burn'', updatedAt := 9 \<rparr>]) \<and>
   findById [exampleDeck ''Ab'' id1 5] id1 = Some (exampleDeck ''Ab'' id1 5) \<and>
   createdAt ((exampleDeck ''Ab'' id1 5) \<lparr> description := ''Burn'', updatedAt := 9 \<rparr>) = 5 \<and>
   updatedAt (exampleDeck ''Ab'' id1 5)
     < updatedAt ((exampleDeck ''Ab'' id1 5) \<lparr> description := ''Burn'', updatedAt := 9 \<rparr>)"
proof -
  let ?d = "exampleDeck ''Ab'' id1 5"
  let ?d' = "?d \<lparr> description := ''Burn'', updatedAt := 9 \<rparr>"
  have run: "updateDeck [?d] 9 id1 (describe ''Burn'') = Inr (Some ?d', [?d'])" by code_simp
  have before: "findById [?d] id1 = Some ?d" by code_simp
  have clock: "updatedAt ?d < 9" by code_simp
  from updateDeck_timestamps [OF run] before
  have "createdAt ?d' = createdAt ?d" "updatedAt ?d < 9 \<longrightarrow> updatedAt ?d < updatedAt ?d'"
    by auto
  moreover have "createdAt ?d = 5" by code_simp
  ultimately show ?thesis using run before clock by simp
qed

text \<open>
  Claim C7 as stated fails: an update in the millisecond of the previous write succeeds
  and leaves \<^verbatim>\<open>updatedAt\<close> equal to what it was.
\<close>

theorem updateDeck_same_instant_counterexample:
  "updateDeck [exampleDeck ''Ab'' id1 5] 5 id1 (describe ''Burn'') =
     Inr (Some ((exampleDeck ''Ab'' id1 5) \<lparr> description := ''Burn'' \<rparr>),
          [(exampleDeck ''Ab'' id1 5) \<lparr> description := ''Burn'' \<rparr>]) \<and>
   updatedAt ((exampleDeck ''Ab'' id1 5) \<lparr> description := ''Burn'' \<rparr>)
     = updatedAt (exampleDeck ''Ab'' id1 5)"
  by code_simp

text \<open>
  Claim C8: when a body violates the schema in several fields, validation reports all
  of them, not the first only, as \<open>{field, message}\<close> pairs; for the create and the
  update schema.

  Every field whose value the schema does not accept is among the reported fields, as
  itself or as one of its items, and there are at least as many pairs as such fields.
  The pairs are tied to the body: a body with no violating place is not answered with
  400 but handed on, converted; otherwise the fields of the pairs are exactly the
  violating places of the body, each item of an array that is not accepted being a
  place of its own, there is at least one pair for each place, and each pair carries a
  message the schema has for its field.
\<close>

theorem validation_reports_every_field:
  "(k \<in> set (violatingFields isUri createDeckSchema b) \<longrightarrow>
      (\<exists>fms. validateCreateDeck isUri b = Status400 fms \<and> reportsField fms k \<and>
         length (violatingFields isUri createDeckSchema b) \<le> length fms)) \<and>
   (k \<in> set (violatingFields isUri updateDeckSchema b) \<longrightarrow>
      (\<exists>fms. validateUpdateDeck isUri b = Status400 fms \<and> reportsField fms k \<and>
         length (violatingFields isUri updateDeckSchema b) \<le> length fms)) \<and>
   (violatingPlaces isUri createDeckSchema b = [] \<longrightarrow>
      validateCreateDeck isUri b = Next (joiValue createDeckSchema b)) \<and>
   (violatingPlaces isUri createDeckSchema b \<noteq> [] \<longrightarrow>
      (\<exists>fms. validateCreateDeck isUri b = Status400 fms \<and>
         set (map field fms) = set (violatingPlaces isUri createDeckSchema b) \<and>
         length (violatingPlaces isUri createDeckSchema b) \<le> length fms \<and>
         list_all (schemaMessage createDeckSchema) fms)) \<and>
   (violatingPlaces isUri updateDeckSchema b = [] \<longrightarrow>
      validateUpdateDeck isUri b = Next (joiValue updateDeckSchema b)) \<and>
   (violatingPlaces isUri updateDeckSchema b \<noteq> [] \<longrightarrow>
      (\<exists>fms. validateUpdateDeck isUri b = Status400 fms \<and>
         set (map field fms) = set (violatingPlaces isUri updateDeckSchema b) \<and>
         length (violatingPlaces isUri updateDeckSchema b) \<le> length fms \<and>
         list_all (schemaMessage updateDeckSchema) fms))"
  (is "?a \<and> ?b \<and> ?c \<and> ?d \<and> ?e \<and> ?f")
proof -
  have a: ?a
    by (intro impI) (rule respond_reports [of k isUri createDeckSchema b, folded validateCreateDeck_def])
  have b: ?b
    by (intro impI) (rule respond_reports [of k isUri updateDeckSchema b, folded validateUpdateDeck_def])
  note create = respond_places [of isUri createDeckSchema b, folded validateCreateDeck_def]
  note update = respond_places [of isUri updateDeckSchema b, folded validateUpdateDeck_def]
  have c: ?c and d: ?d
    by (rule create [THEN conjunct1], rule create [THEN conjunct2])
  have e: ?e and f: ?f
    by (rule update [THEN conjunct1], rule update [THEN conjunct2])
  from a b c d e f show ?thesis
    by (intro conjI)
qed

text \<open>
  A body with four violating places in three fields is answered with the four pairs
  below, by either schema with the same fields; a body the schemas accept is handed on
  trimmed, converted and without the field they do not know.
\<close>

theorem validation_reports_every_field_witness:
  "''tierRating'' \<in> set (violatingFields (\<lambda>s. True) createDeckSchema threeMistakes) \<and>
   ''name'' \<in> set (violatingFields (\<lambda>s. True) updateDeckSchema threeMistakes) \<and>
   (\<exists>fms. validateCreateDeck (\<lambda>s. True) threeMistakes = Status400 fms \<and>
      reportsField fms ''tierRating'' \<and> 3 \<le> length fms) \<and>
   (\<exists>fms. validateUpdateDeck (\<lambda>s. True) threeMistakes = Status400 fms \<and>
      reportsField fms ''name'' \<and> 3 \<le> length fms) \<and>
   violatingPlaces (\<lambda>s. True) createDeckSchema threeMistakes
     = [''name'', ''colors.0'', ''colors.2'', ''tierRating''] \<and>
   violatingPlaces (\<lambda>s. True) updateDeckSchema threeMistakes
     = [''name'', ''colors.0'', ''colors.2'', ''tierRating''] \<and>
   (\<exists>fms. validateCreateDeck (\<lambda>s. True) threeMistakes = Status400 fms \<and>
      set (map field fms) = {''name'', ''colors.0'', ''colors.2'', ''tierRating''} \<and>
      4 \<le> length fms \<and> list_all (schemaMessage createDeckSchema) fms) \<and>
   (\<exists>fms. validateUpdateDeck (\<lambda>s. True) threeMistakes = Status400 fms \<and>
      set (map field fms) = {''name'', ''colors.0'', ''colors.2'', ''tierRating''} \<and>
      4 \<le> length fms \<and> list_all (schemaMessage updateDeckSchema) fms) \<and>
   validateCreateDeck (\<lambda>s. True) threeMistakes =
     Status400 [\<lparr> field = ''name'', message = Custom ''Deck name is required'' \<rparr>,
                \<lparr> field = ''colors.0'', message = Custom ''Invalid magic color'' \<rparr>,
                \<lparr> field = ''colors.2'', message = Custom ''Invalid magic color'' \<rparr>,
                \<lparr> field = ''tierRating'',
                   message = Custom ''Tier rating must be S, A, B, C, or D'' \<rparr>] \<and>
   violatingPlaces (\<lambda>s. True) createDeckSchema tidy = [] \<and>
   violatingPlaces (\<lambda>s. True) updateDeckSchema tidy = [] \<and>
   validateCreateDeck (\<lambda>s. True) tidy = Next (joiValue createDeckSchema tidy) \<and>
   validateUpdateDeck (\<lambda>s. True) tidy = Next (joiValue updateDeckSchema tidy) \<and>
   joiValue createDeckSchema tidy =
     [(''name'', JString ''Burn''), (''description'', JString ''Fast red deck''),
      (''colors'', JArray [JString ''R'']), (''tierRating'', JString ''A''),
      (''hasCardSleeves'', JBool True), (''isComplete'', JBool False),
      (''deckType'', JString ''AGGRO''), (''gameStage'', JString ''EARLY''),
      (''storageLocation'', JString ''Red Box 1'')]"
proof -
  let ?u = "\<lambda>s::string. True"
  have v1: "violatingFields ?u createDeckSchema threeMistakes
              = [''name'', ''colors'', ''tierRating'']" by code_simp
  have v2: "violatingFields ?u updateDeckSchema threeMistakes
              = [''name'', ''colors'', ''tierRating'']" by code_simp
  have p1: "violatingPlaces ?u createDeckSchema threeMistakes
              = [''name'', ''colors.0'', ''colors.2'', ''tierRating'']" by code_simp
  have p2: "violatingPlaces ?u updateDeckSchema threeMistakes
              = [''name'', ''colors.0'', ''colors.2'', ''tierRating'']" by code_simp
  have p3: "violatingPlaces ?u createDeckSchema tidy = []" by code_simp
  have p4: "violatingPlaces ?u updateDeckSchema tidy = []" by code_simp
  have e1: "validateCreateDeck ?u threeMistakes =
     Status400 [\<lparr> field = ''name'', message = Custom ''Deck name is required'' \<rparr>,
                \<lparr> field = ''colors.0'', message = Custom ''Invalid magic color'' \<rparr>,
                \<lparr> field = ''colors.2'', message = Custom ''Invalid magic color'' \<rparr>,
                \<lparr> field = ''tierRating'',
                   message = Custom ''Tier rating must be S, A, B, C, or D'' \<rparr>]"
    by code_simp
  have e2: "joiValue createDeckSchema tidy =
     [(''name'', JString ''Burn''), (''description'', JString ''Fast red deck''),
      (''colors'', JArray [JString ''R'']), (''tierRating'', JString ''A''),
      (''hasCardSleeves'', JBool True), (''isComplete'', JBool False),
      (''deckType'', JString ''AGGRO''), (''gameStage'', JString ''EARLY''),
      (''storageLocation'', JString ''Red Box 1'')]"
    by code_simp
  have m1: "''tierRating'' \<in> set (violatingFields ?u createDeckSchema threeMistakes)"
    by (simp only: v1) simp
  have m2: "''name'' \<in> set (violatingFields ?u updateDeckSchema threeMistakes)"
    by (simp only: v2) simp
  have n1: "length (violatingFields ?u createDeckSchema threeMistakes) = 3"
    by (simp only: v1) simp
  have n2: "length (violatingFields ?u updateDeckSchema threeMistakes) = 3"
    by (simp only: v2) simp
  have s1: "set (violatingPlaces ?u createDeckSchema threeMistakes)
              = {''name'', ''colors.0'', ''colors.2'', ''tierRating''}"
    "length (violatingPlaces ?u createDeckSchema threeMistakes) = 4"
    "violatingPlaces ?u createDeckSchema threeMistakes \<noteq> []"
    by (simp_all only: p1) simp_all
  have s2: "set (violatingPlaces ?u updateDeckSchema threeMistakes)
              = {''name'', ''colors.0'', ''colors.2'', ''tierRating''}"
    "length (violatingPlaces ?u updateDeckSchema threeMistakes) = 4"
    "violatingPlaces ?u updateDeckSchema threeMistakes \<noteq> []"
    by (simp_all only: p2) simp_all
  note t = validation_reports_every_field [of "''tierRating''" ?u threeMistakes]
  note t' = validation_reports_every_field [of "''name''" ?u threeMistakes]
  note t'' = validation_reports_every_field [of "''name''" ?u tidy]
  have a: "\<exists>fms. validateCreateDeck ?u threeMistakes = Status400 fms \<and>
      reportsField fms ''tierRating'' \<and> 3 \<le> length fms"
    using t [THEN conjunct1, THEN mp, OF m1] unfolding n1 .
  have b: "\<exists>fms. validateUpdateDeck ?u threeMistakes = Status400 fms \<and>
      reportsField fms ''name'' \<and> 3 \<le> length fms"
    using t' [THEN conjunct2, THEN conjunct1, THEN mp, OF m2] unfolding n2 .
  have c: "\<exists>fms. validateCreateDeck ?u threeMistakes = Status400 fms \<and>
      set (map field fms) = {''name'', ''colors.0'', ''colors.2'', ''tierRating''} \<and>
      4 \<le> length fms \<and> list_all (schemaMessage createDeckSchema) fms"
    using t [THEN conjunct2, THEN conjunct2, THEN conjunct2, THEN conjunct1, THEN mp, OF s1(3)]
    unfolding s1(1,2) .
  have d: "\<exists>fms. validateUpdateDeck ?u threeMistakes = Status400 fms \<and>
      set (map field fms) = {''name'', ''colors.0'', ''colors.2'', ''tierRating''} \<and>
      4 \<le> length fms \<and> list_all (schemaMessage updateDeckSchema) fms"
    using t [THEN conjunct2, THEN conjunct2, THEN conjunct2, THEN conjunct2, THEN conjunct2,
             THEN mp, OF s2(3)]
    unfolding s2(1,2) .
  have f: "validateCreateDeck ?u tidy = Next (joiValue createDeckSchema tidy)"
    using t'' [THEN conjunct2, THEN conjunct2, THEN conjunct1, THEN mp, OF p3] .
  have g: "validateUpdateDeck ?u tidy = Next (joiValue updateDeckSchema tidy)"
    using t'' [THEN conjunct2, THEN conjunct2, THEN conjunct2, THEN conjunct2, THEN conjunct1,
               THEN mp, OF p4] .
  from m1 m2 a b p1 p2 c d e1 p3 p4 f g e2 show ?thesis
    by (intro conjI)
qed

text \<open>
  Claim C10: an update whose name equals the stored name of its target, case included,
  makes no uniqueness lookup and never fails with the conflict error: it goes on to
  the merge. The collection is one the unique index and the trim setter allow.
\<close>

theorem updateDeck_own_name:
  assumes "findById st i = Some existingDeck"
    and "upd_name request = Some (name existingDeck)"
    and "uniqueNames st"
  shows "updateDeck st now i request = update st now i request \<and>
         (\<forall>e. updateDeck st now i request = Inl e \<longrightarrow> \<not> isConflict e)"
proof -
  have skip: "changedName request existingDeck = None"
    by (simp add: changedName_def assms(2))
  then have eq: "updateDeck st now i request = update st now i request"
    by (simp add: updateDeck_def assms(1))
  from assms(1) have valid: "isValidObjectId i"
    and found: "find (\<lambda>e. deck_id e = map toLowerCase i) st = Some existingDeck"
    and mem: "existingDeck \<in> set st"
    using findById_Some by blast+
  from assms(3) mem have trimmed: "trim (name existingDeck) = name existingDeck"
    by (auto simp: uniqueNames_def list_all_iff)
  have kept: "name ((assign existingDeck (applySettersUpdate request)) \<lparr> updatedAt := now \<rparr>)
                = name existingDeck"
    by (simp add: assign_def applySettersUpdate_def assms(2) trimmed)
  have none: "\<not> list_ex (\<lambda>e. deck_id e \<noteq> deck_id existingDeck \<and> name e = name existingDeck) st"
    using unique_name_holder [OF assms(3) mem] by (auto simp: list_ex_iff)
  have "\<forall>e. update st now i request = Inl e \<longrightarrow> \<not> isConflict e"
    using valid found kept none
    by (auto simp: update_def Let_def split: if_splits)
  with eq show ?thesis by simp
qed

text \<open>
  The deck \<open>Ab\<close> sent its own name again. Had the lookup run, it would have found
  the deck itself.
\<close>

theorem updateDeck_own_name_witness:
  "findById [exampleDeck ''Ab'' id1 5] id1 = Some (exampleDeck ''Ab'' id1 5) \<and>
   findByName [exampleDeck ''Ab'' id1 5] ''Ab'' = Inr (Some (exampleDeck ''Ab'' id1 5)) \<and>
   upd_name (rename ''Ab'') = Some (name (exampleDeck ''Ab'' id1 5)) \<and>
   uniqueNames [exampleDeck ''Ab'' id1 5] \<and>
   updateDeck [exampleDeck ''Ab'' id1 5] 9 id1 (rename ''Ab'')
     = update [exampleDeck ''Ab'' id1 5] 9 id1 (rename ''Ab'') \<and>
   updateDeck [exampleDeck ''Ab'' id1 5] 9 id1 (rename ''Ab'') \<noteq> Inl (AlreadyExists ''Ab'')"
proof -
  let ?d = "exampleDeck ''Ab'' id1 5"
  have h1: "findById [?d] id1 = Some ?d" by code_simp
  have h2: "upd_name (rename ''Ab'') = Some (name ?d)" by code_simp
  have h3: "uniqueNames [?d]" by code_simp
  have hit: "findByName [?d] ''Ab'' = Inr (Some ?d)" by code_simp
  from updateDeck_own_name [OF h1 h2 h3, of 9]
  have "updateDeck [?d] 9 id1 (rename ''Ab'') = update [?d] 9 id1 (rename ''Ab'')"
    and "updateDeck [?d] 9 id1 (rename ''Ab'') \<noteq> Inl (AlreadyExists ''Ab'')"
    by auto
  with h1 h2 h3 hit show ?thesis by simp
qed

end
